theory Spec2Isabelle
  imports Complex_Main "HOL-Library.Sublist"
begin

section \<open>JSON values and the JavaScript operations the proxy applies to them\<close>

text \<open>
  A JavaScript number: not-a-number, an infinity, or a finite value, taken as an exact
  rational.
\<close>

datatype js_number = NaN | PosInfinity | NegInfinity | Finite rat

fun isFinite :: "js_number \<Rightarrow> bool" where
  "isFinite (Finite r) = True"
| "isFinite _ = False"

text \<open>\<^verbatim>\<open>!x\<close> on a number: true for zero and for not-a-number.\<close>

fun falsy_number :: "js_number \<Rightarrow> bool" where
  "falsy_number NaN = True"
| "falsy_number (Finite r) = (r = 0)"
| "falsy_number _ = False"

text \<open>
  A value as \<^verbatim>\<open>JSON.parse\<close> produces it and as the handlers pass it on. A number is a
  JavaScript number: \<^verbatim>\<open>JSON.parse\<close> gives an infinity for a literal beyond the range of a
  double, such as \<^verbatim>\<open>1e400\<close>. An object is the list of its own properties in insertion
  order, and the first binding of a key is the property's value.
\<close>

datatype json =
    JNull
  | JBool bool
  | JNum js_number
  | JStr string
  | JArr "json list"
  | JObj "(string \<times> json) list"

datatype js_error = SyntaxError | TypeError | GenerationError

text \<open>
  The platform the route handlers run on, as far as they observe it:
  \<^item> \<^verbatim>\<open>JSON.parse\<close>, which yields a value or throws a \<^verbatim>\<open>SyntaxError\<close> (\<open>None\<close>);
  \<^item> the conversion of a number to a string;
  \<^item> the hosted language model: what one call of \<^verbatim>\<open>generateObject\<close> or \<^verbatim>\<open>generateText\<close>
    finally obtains from it, raw text, or a failure (\<open>None\<close>: network, authentication,
    quota). The library may repeat a failed request inside the one call; the handlers do
    not see that.
\<close>

record generate_call =
  model :: string
  schema :: bool
  system :: "string option"
  prompt :: string

record runtime =
  JSON_parse :: "string \<Rightarrow> json option"
  Number_toString :: "js_number \<Rightarrow> string"
  language_model :: "generate_call \<Rightarrow> string option"

record response =
  status :: nat
  body :: json

text \<open>
  What \<^verbatim>\<open>JSON.stringify\<close> writes for a value, read back as a value: a number that is not
  finite is written \<^verbatim>\<open>null\<close>; everything else is kept.
\<close>

fun JSON_stringify :: "json \<Rightarrow> json"
and stringify_elements :: "json list \<Rightarrow> json list"
and stringify_properties :: "(string \<times> json) list \<Rightarrow> (string \<times> json) list" where
  "JSON_stringify JNull = JNull"
| "JSON_stringify (JBool b) = JBool b"
| "JSON_stringify (JNum n) = (if isFinite n then JNum n else JNull)"
| "JSON_stringify (JStr s) = JStr s"
| "JSON_stringify (JArr xs) = JArr (stringify_elements xs)"
| "JSON_stringify (JObj kvs) = JObj (stringify_properties kvs)"
| "stringify_elements [] = []"
| "stringify_elements (x # xs) = JSON_stringify x # stringify_elements xs"
| "stringify_properties [] = []"
| "stringify_properties ((k, v) # kvs) = (k, JSON_stringify v) # stringify_properties kvs"

text \<open>
  \<^verbatim>\<open>NextResponse.json(data, { status })\<close>: the body is the serialised data, as the client
  reads it; the status is 200 when none is given.
\<close>

definition NextResponse_json :: "json \<Rightarrow> nat \<Rightarrow> response" where
  "NextResponse_json data st = \<lparr>status = st, body = JSON_stringify data\<rparr>"

definition error_body :: "string \<Rightarrow> json" where
  "error_body msg = JObj [(''error'', JStr msg)]"

text \<open>
  \<^verbatim>\<open>const { frames } = value\<close>: destructuring null throws a \<^verbatim>\<open>TypeError\<close>; an object
  yields its property or undefined (\<open>None\<close>); every other value has no such property.
\<close>

fun destructure_frames :: "json \<Rightarrow> js_error + json option" where
  "destructure_frames JNull = Inl TypeError"
| "destructure_frames (JObj kvs) = Inr (map_of kvs ''frames'')"
| "destructure_frames _ = Inr None"

text \<open>JavaScript truthiness, \<^verbatim>\<open>Array.isArray\<close> and \<^verbatim>\<open>.length\<close> of an array.\<close>

fun truthy :: "json option \<Rightarrow> bool" where
  "truthy None = False"
| "truthy (Some JNull) = False"
| "truthy (Some (JBool b)) = b"
| "truthy (Some (JNum n)) = (\<not> falsy_number n)"
| "truthy (Some (JStr s)) = (s \<noteq> [])"
| "truthy (Some (JArr xs)) = True"
| "truthy (Some (JObj kvs)) = True"

fun Array_isArray :: "json option \<Rightarrow> bool" where
  "Array_isArray (Some (JArr xs)) = True"
| "Array_isArray _ = False"

fun array_elements :: "json option \<Rightarrow> json list" where
  "array_elements (Some (JArr xs)) = xs"
| "array_elements _ = []"

text \<open>
  The conversion a template literal applies to an interpolated value. A string is itself;
  an array is its elements joined by commas, null elements giving the empty string; a
  plain object gives \<^verbatim>\<open>[object Object]\<close> unless it has an own property \<^verbatim>\<open>toString\<close>,
  which (coming from JSON) is not callable, and then the conversion throws.
\<close>

fun ToString :: "(js_number \<Rightarrow> string) \<Rightarrow> json \<Rightarrow> js_error + string"
and Array_join :: "(js_number \<Rightarrow> string) \<Rightarrow> json list \<Rightarrow> js_error + string" where
  "ToString ns JNull = Inr ''null''"
| "ToString ns (JBool b) = Inr (if b then ''true'' else ''false'')"
| "ToString ns (JNum n) = Inr (ns n)"
| "ToString ns (JStr s) = Inr s"
| "ToString ns (JArr xs) = Array_join ns xs"
| "ToString ns (JObj kvs) =
     (if ''toString'' \<in> set (map fst kvs) then Inl TypeError else Inr ''[object Object]'')"
| "Array_join ns [] = Inr []"
| "Array_join ns (x # xs) =
     (case (if x = JNull then Inr [] else ToString ns x) of
        Inl e \<Rightarrow> Inl e
      | Inr s \<Rightarrow>
          (if xs = [] then Inr s
           else (case Array_join ns xs of Inl e \<Rightarrow> Inl e | Inr r \<Rightarrow> Inr (s @ '','' @ r))))"

text \<open>The decimal numeral of a natural number, as JavaScript prints an array index.\<close>

definition digit :: "nat \<Rightarrow> char" where
  "digit d = char_of (48 + d)"

fun decimal :: "nat \<Rightarrow> string" where
  "decimal n = (if n < 10 then [digit n] else decimal (n div 10) @ [digit (n mod 10)])"

declare decimal.simps [simp del]

text \<open>\<^verbatim>\<open>Array.prototype.join\<close> on strings.\<close>

fun join :: "string \<Rightarrow> string list \<Rightarrow> string" where
  "join sep [] = []"
| "join sep [x] = x"
| "join sep (x # y # ys) = x @ sep @ join sep (y # ys)"


section \<open>The analysis proxy\<close>

text \<open>
  The repository holds two versions of the route handler \<^verbatim>\<open>POST\<close>: the structured route
  (\<^verbatim>\<open>src/unnamed/part_000\<close>, which calls \<^verbatim>\<open>generateObject\<close> with a schema) and the text
  route (the first part of \<^verbatim>\<open>src/app/api/gaze/route.ts\<close>, which calls \<^verbatim>\<open>generateText\<close>).
  They are the same up to the model call. The client component \<^verbatim>\<open>GazeRecorder\<close> is the
  second part of \<^verbatim>\<open>src/app/api/gaze/route.ts\<close>.
\<close>

subsection \<open>Prompt construction\<close>

text \<open>
  \<^verbatim>\<open>frames.map((img, idx) => `Frame ${idx + 1}:\n![](${img})`).join("\n\n")\<close>, the same
  line in both route files. \<open>frame_entry\<close> is the template applied to one (converted)
  element; \<open>map_frames\<close> is the \<^verbatim>\<open>map\<close>, which stops at the first conversion that throws.
\<close>

definition frame_entry :: "nat \<Rightarrow> string \<Rightarrow> string" where
  "frame_entry idx img = ''Frame '' @ decimal (idx + 1) @ '':\<newline>![]('' @ img @ '')''"

fun map_frames :: "(js_number \<Rightarrow> string) \<Rightarrow> nat \<Rightarrow> json list \<Rightarrow> js_error + string list" where
  "map_frames ns idx [] = Inr []"
| "map_frames ns idx (img # imgs) =
     (case ToString ns img of
        Inl e \<Rightarrow> Inl e
      | Inr s \<Rightarrow>
          (case map_frames ns (idx + 1) imgs of
             Inl e \<Rightarrow> Inl e
           | Inr rest \<Rightarrow> Inr (frame_entry idx s # rest)))"

definition framesContent :: "(js_number \<Rightarrow> string) \<Rightarrow> json list \<Rightarrow> js_error + string" where
  "framesContent ns frames =
     (case map_frames ns 0 frames of
        Inl e \<Rightarrow> Inl e
      | Inr entries \<Rightarrow> Inr (join ''\<newline>\<newline>'' entries))"

text \<open>The fixed text of the prompts; \<open>apos\<close> is the apostrophe.\<close>

definition apos :: string where
  "apos = [CHR 0x27]"

definition instructions_structured :: string where
  "instructions_structured =
     ''Your task is to analyze the direction of the person'' @ apos @
     ''s gaze in each frame. The person is using a device (laptop or '' @
     ''smartphone) with a front-facing camera capturing these images. '' @
     ''This means if the person is generally making eye contact with '' @
     ''the camera, it is on-screen. Determine if their gaze is '' @
     ''directed *towards the device'' @ apos @
     ''s screen/camera* (on-screen = true) or elsewhere (off-screen = '' @
     ''false). Facing the camera but with eyes tilted slightly below '' @
     ''the camera counts as on-screen as laptop cameras and front '' @
     ''facing phone cameras are often mounted above the screen itself. '' @
     ''Looking significantly left, right, or up counts as off-screen. '' @
     ''For each frame number (1-indexed), provide this true/false '' @
     ''determination and a confidence score (0-100). If you cannot see '' @ ''the user'' @
     apos @ ''s face or eyes, return false as well. If there is no person in '' @
     ''the image, return false. Output the results according to the '' @
     ''provided schema.\<newline>\<newline>''"

definition system_structured :: string where
  "system_structured =
     ''You are a computer vision expert that analyzes gaze direction '' @ ''in images. '' @
     apos @ ''On-screen'' @ apos @
     '' means directed towards the camera/device screen.  You output '' @
     ''structured JSON conforming to the provided schema.''"

definition instructions_text :: string where
  "instructions_text =
     ''Your task is to analyze the direction of the person'' @ apos @
     ''s gaze in each frame. The person is using a device (laptop or '' @
     ''smartphone) with a front-facing camera capturing these images. '' @
     ''This means if the person is generally making eye contact with '' @
     ''the camera, it is on-screen. Determine if their gaze is '' @
     ''directed *towards the device'' @ apos @ ''s screen/camera* (on-screen = '' @ apos @
     ''gaze: true'' @ apos @ '') or elsewhere (off-screen = '' @ apos @ ''gaze: false'' @
     apos @ ''). Facing the camera but with eyes tilted slightly below the '' @
     ''camera counts as on-screen as laptop cameras and front facing '' @
     ''phone cameras are often mounted above the screen itself. '' @
     ''Looking significantly left, right, or up counts as off-screen. '' @
     ''For each frame number (1-indexed), provide this true/false '' @
     ''determination for '' @ apos @ ''gaze'' @ apos @ '', a true/false value for '' @ apos @
     ''eyesClosed'' @ apos @ '', and a confidence score (0-100).\<newline>\<newline>'' @
     ''Key Instructions:\<newline>'' @ ''- If the person'' @ apos @
     ''s eyes are clearly closed, set '' @ apos @ ''eyesClosed: true'' @ apos @ '' AND '' @
     apos @ ''gaze: false'' @ apos @ ''.\<newline>'' @ ''- If you cannot see the person'' @
     apos @ ''s face or eyes clearly enough to determine gaze, set '' @ apos @
     ''gaze: false'' @ apos @ '' and '' @ apos @ ''eyesClosed: false'' @ apos @
     ''.\<newline>'' @ ''- If there is no person in the image, set '' @ apos @
     ''gaze: false'' @ apos @ '' and '' @ apos @ ''eyesClosed: false'' @ apos @
     ''.\<newline>'' @ ''- Otherwise, determine gaze direction ('' @ apos @ ''gaze: true'' @
     apos @ '' for on-screen, '' @ apos @ ''gaze: false'' @ apos @
     '' for off-screen) and set '' @ apos @ ''eyesClosed: false'' @ apos @
     ''.\<newline>\<newline>'' @
     ''Output the results according to the provided schema.\<newline>\<newline>''"

subsection \<open>The output schemas and the model calls\<close>

text \<open>
  The object type of \<^verbatim>\<open>gazeSchema\<close> in the structured route (frame, gaze, confidence),
  and the client's interface \<^verbatim>\<open>GazeResult\<close>, which is also the object type of the schema
  declared in the text route: the same fields and \<^verbatim>\<open>eyesClosed\<close>.
\<close>

record gaze_judgment =
  frame :: js_number
  gaze :: bool
  confidence :: js_number

record GazeResult = gaze_judgment +
  eyesClosed :: bool

text \<open>
  Validation by zod. \<^verbatim>\<open>z.number()\<close> accepts every number but not-a-number, the
  infinities included; \<^verbatim>\<open>z.boolean()\<close> accepts the two booleans; a missing property
  (\<open>None\<close>) fails both. An object schema wants an object whose listed keys hold values of
  the listed types, and drops unknown keys from its output.
\<close>

fun z_number :: "json option \<Rightarrow> js_number option" where
  "z_number (Some (JNum n)) = (if n = NaN then None else Some n)"
| "z_number _ = None"

fun z_boolean :: "json option \<Rightarrow> bool option" where
  "z_boolean (Some (JBool b)) = Some b"
| "z_boolean _ = None"

definition result_entry_structured :: "json \<Rightarrow> gaze_judgment option" where
  "result_entry_structured j =
     (case j of
        JObj kvs \<Rightarrow>
          (case z_number (map_of kvs ''frame'') of
             None \<Rightarrow> None
           | Some f \<Rightarrow>
               (case z_boolean (map_of kvs ''gaze'') of
                  None \<Rightarrow> None
                | Some g \<Rightarrow>
                    (case z_number (map_of kvs ''confidence'') of
                       None \<Rightarrow> None
                     | Some c \<Rightarrow> Some \<lparr>frame = f, gaze = g, confidence = c\<rparr>)))
      | _ \<Rightarrow> None)"

definition gazeSchema_structured :: "json \<Rightarrow> gaze_judgment list option" where
  "gazeSchema_structured j =
     (case j of
        JObj kvs \<Rightarrow>
          (case map_of kvs ''results'' of
             Some (JArr es) \<Rightarrow> those (map result_entry_structured es)
           | _ \<Rightarrow> None)
      | _ \<Rightarrow> None)"

definition result_entry_text :: "json \<Rightarrow> GazeResult option" where
  "result_entry_text j =
     (case j of
        JObj kvs \<Rightarrow>
          (case z_number (map_of kvs ''frame'') of
             None \<Rightarrow> None
           | Some f \<Rightarrow>
               (case z_boolean (map_of kvs ''gaze'') of
                  None \<Rightarrow> None
                | Some g \<Rightarrow>
                    (case z_boolean (map_of kvs ''eyesClosed'') of
                       None \<Rightarrow> None
                     | Some e \<Rightarrow>
                         (case z_number (map_of kvs ''confidence'') of
                            None \<Rightarrow> None
                          | Some c \<Rightarrow>
                              Some \<lparr>frame = f, gaze = g, confidence = c, eyesClosed = e\<rparr>))))
      | _ \<Rightarrow> None)"

text \<open>Declared in the text route, and passed to no call there.\<close>

definition gazeSchema_text :: "json \<Rightarrow> GazeResult list option" where
  "gazeSchema_text j =
     (case j of
        JObj kvs \<Rightarrow>
          (case map_of kvs ''results'' of
             Some (JArr es) \<Rightarrow> those (map result_entry_text es)
           | _ \<Rightarrow> None)
      | _ \<Rightarrow> None)"

text \<open>
  \<^verbatim>\<open>generateObject\<close> asks the model once, parses its text as JSON and validates the value
  against the schema; it throws when the call fails, when the text is not JSON and when
  the value does not conform. \<^verbatim>\<open>generateText\<close> asks the model once and returns its text.
\<close>

definition generateObject ::
  "runtime \<Rightarrow> generate_call \<Rightarrow> (json \<Rightarrow> 'a option) \<Rightarrow> js_error + 'a" where
  "generateObject rt call validate =
     (case language_model rt call of
        None \<Rightarrow> Inl GenerationError
      | Some reply \<Rightarrow>
          (case JSON_parse rt reply of
             None \<Rightarrow> Inl GenerationError
           | Some v \<Rightarrow>
               (case validate v of
                  None \<Rightarrow> Inl GenerationError
                | Some obj \<Rightarrow> Inr obj)))"

definition generateText :: "runtime \<Rightarrow> generate_call \<Rightarrow> js_error + string" where
  "generateText rt call =
     (case language_model rt call of
        None \<Rightarrow> Inl GenerationError
      | Some reply \<Rightarrow> Inr reply)"

text \<open>An object of \<^verbatim>\<open>object.results\<close> as a value; its keys come in the order of the schema.\<close>

definition judgment_json :: "gaze_judgment \<Rightarrow> json" where
  "judgment_json r =
     JObj [(''frame'', JNum (frame r)), (''gaze'', JBool (gaze r)),
           (''confidence'', JNum (confidence r))]"

subsection \<open>The two route handlers\<close>

text \<open>
  The handler of the outer \<^verbatim>\<open>catch\<close>, the same in both files: 400 for a
  \<^verbatim>\<open>SyntaxError\<close>, 500 for anything else.
\<close>

definition outer_catch :: "js_error \<Rightarrow> response" where
  "outer_catch e =
     (if e = SyntaxError
      then NextResponse_json (error_body ''Invalid request body format'') 400
      else NextResponse_json (error_body ''Failed to analyze frames'') 500)"

definition no_frames_response :: response where
  "no_frames_response = NextResponse_json (error_body ''No frames provided for analysis'') 400"

definition service_failure_response :: response where
  "service_failure_response =
     NextResponse_json
       (error_body
          (''Failed to analyze frames with AI service. '' @
           ''Check API key/quota or model output conformity.''))
       500"

text \<open>
  The arguments of the one model call each handler makes, for the frames text \<open>content\<close>:
  the structured route passes a model, the schema, the prompt and a system message; the
  text route passes a model and the prompt only.
\<close>

definition structured_call :: "string \<Rightarrow> generate_call" where
  "structured_call content =
     \<lparr>model = ''gemini-2.5-flash-preview-04-17'', schema = True,
      system = Some system_structured, prompt = instructions_structured @ content\<rparr>"

definition text_call :: "string \<Rightarrow> generate_call" where
  "text_call content =
     \<lparr>model = ''gpt-4o-mini'', schema = False, system = None,
      prompt = instructions_text @ content\<rparr>"

text \<open>
  \<^verbatim>\<open>POST\<close> of the structured route (\<^verbatim>\<open>generateObject\<close> with \<^verbatim>\<open>gazeSchema\<close>). The
  argument is the text of the request body; the result is the response together with the
  calls made to the language model, in order.
\<close>

definition POST_structured :: "runtime \<Rightarrow> string \<Rightarrow> response \<times> generate_call list" where
  "POST_structured rt request =
     (case JSON_parse rt request of
        None \<Rightarrow> (outer_catch SyntaxError, [])
      | Some parsed \<Rightarrow>
          (case destructure_frames parsed of
             Inl e \<Rightarrow> (outer_catch e, [])
           | Inr frames \<Rightarrow>
               if \<not> truthy frames \<or> \<not> Array_isArray frames \<or> length (array_elements frames) = 0
               then (no_frames_response, [])
               else
                 (case framesContent (Number_toString rt) (array_elements frames) of
                    Inl e \<Rightarrow> (outer_catch e, [])
                  | Inr content \<Rightarrow>
                      (let call = structured_call content
                       in case generateObject rt call gazeSchema_structured of
                            Inl e \<Rightarrow> (service_failure_response, [call])
                          | Inr results \<Rightarrow>
                              (NextResponse_json (JArr (map judgment_json results)) 200,
                               [call])))))"

text \<open>
  \<^verbatim>\<open>POST\<close> of the text route (\<^verbatim>\<open>generateText\<close>, no schema, no system message); the
  model's text is returned as a JSON string.
\<close>

definition POST_text :: "runtime \<Rightarrow> string \<Rightarrow> response \<times> generate_call list" where
  "POST_text rt request =
     (case JSON_parse rt request of
        None \<Rightarrow> (outer_catch SyntaxError, [])
      | Some parsed \<Rightarrow>
          (case destructure_frames parsed of
             Inl e \<Rightarrow> (outer_catch e, [])
           | Inr frames \<Rightarrow>
               if \<not> truthy frames \<or> \<not> Array_isArray frames \<or> length (array_elements frames) = 0
               then (no_frames_response, [])
               else
                 (case framesContent (Number_toString rt) (array_elements frames) of
                    Inl e \<Rightarrow> (outer_catch e, [])
                  | Inr content \<Rightarrow>
                      (let call = text_call content
                       in case generateText rt call of
                            Inl e \<Rightarrow> (service_failure_response, [call])
                          | Inr reply \<Rightarrow> (NextResponse_json (JStr reply) 200, [call])))))"

subsection \<open>Request bodies and concrete platforms for running the handlers\<close>

text \<open>
  The body the client sends, \<^verbatim>\<open>JSON.stringify({ frames })\<close>, parses to an object with
  the one property \<^verbatim>\<open>frames\<close>, an array of strings.
\<close>

definition frames_body :: "string list \<Rightarrow> json" where
  "frames_body fs = JObj [(''frames'', JArr (map JStr fs))]"

text \<open>
  A platform for concrete runs: \<^verbatim>\<open>JSON.parse\<close> restricted to a table of texts (any other
  text is taken as unparsable), and a model that answers every call with the same two
  judgments. The runs send frames that are strings, so no number is converted to a
  string; the conversion given here is right for whole numbers from 0 only. A second
  platform differs in the model's answer: the first of its two judgments has the
  confidence \<^verbatim>\<open>1e400\<close>, which \<^verbatim>\<open>JSON.parse\<close> reads as infinity.
\<close>

definition two_judgments_text :: string where
  \<open>two_judgments_text =
     ''{"results":[{"frame":1,"gaze":true,"confidence":90},'' @
     ''{"frame":2,"gaze":false,"confidence":40}]}''\<close>

definition two_judgments :: json where
  "two_judgments =
     JObj [(''results'',
            JArr [JObj [(''frame'', JNum (Finite 1)), (''gaze'', JBool True),
                        (''confidence'', JNum (Finite 90))],
                  JObj [(''frame'', JNum (Finite 2)), (''gaze'', JBool False),
                        (''confidence'', JNum (Finite 40))]])]"

definition overflow_judgments_text :: string where
  \<open>overflow_judgments_text =
     ''{"results":[{"frame":1,"gaze":true,"confidence":1e400},'' @
     ''{"frame":2,"gaze":false,"confidence":40}]}''\<close>

definition overflow_judgments :: json where
  "overflow_judgments =
     JObj [(''results'',
            JArr [JObj [(''frame'', JNum (Finite 1)), (''gaze'', JBool True),
                        (''confidence'', JNum PosInfinity)],
                  JObj [(''frame'', JNum (Finite 2)), (''gaze'', JBool False),
                        (''confidence'', JNum (Finite 40))]])]"

definition parse_table :: "(string \<times> json) list" where
  \<open>parse_table =
     [(''null'', JNull),
      (''{}'', JObj []),
      (''{"frames":[]}'', frames_body []),
      (''{"frames":"data:a"}'', JObj [(''frames'', JStr ''data:a'')]),
      (''{"frames":["data:a"]}'', frames_body [''data:a'']),
      (''{"frames":["data:a","data:b"]}'', frames_body [''data:a'', ''data:b'']),
      (two_judgments_text, two_judgments),
      (overflow_judgments_text, overflow_judgments)]\<close>

definition demo_runtime :: runtime where
  "demo_runtime =
     \<lparr>JSON_parse = map_of parse_table,
      Number_toString =
        (\<lambda>n. case n of
                Finite r \<Rightarrow> decimal (nat (floor r))
              | NaN \<Rightarrow> ''NaN''
              | PosInfinity \<Rightarrow> ''Infinity''
              | NegInfinity \<Rightarrow> ''-Infinity''),
      language_model = (\<lambda>call. Some two_judgments_text)\<rparr>"

definition overflow_runtime :: runtime where
  "overflow_runtime = demo_runtime\<lparr>language_model := (\<lambda>call. Some overflow_judgments_text)\<rparr>"


section \<open>The gaze recorder: session state of the client component\<close>

text \<open>
  The component \<^verbatim>\<open>GazeRecorder\<close> fixes two constants and keeps six pieces of React state.
\<close>

definition RECORDING_DURATION :: nat where
  "RECORDING_DURATION = 2"

definition FRAME_COUNT :: nat where
  "FRAME_COUNT = 4"

record ui_state =
  recording :: bool
  count :: nat
  videoURL :: "string option"
  loading :: bool
  capturedFrames :: "string list"
  analysisResults :: "GazeResult list option"

text \<open>The values given to \<^verbatim>\<open>useState\<close> when the component mounts.\<close>

definition initial_ui :: ui_state where
  "initial_ui =
     \<lparr>recording = False, count = RECORDING_DURATION, videoURL = None, loading = False,
      capturedFrames = [], analysisResults = None\<rparr>"


text \<open>
  The summary of the results view:
  \<^verbatim>\<open>onScreenCount = analysisResults.filter((r) => r.gaze).length\<close> and
  \<^verbatim>\<open>offScreenCount = analysisResults.length - onScreenCount\<close>. JavaScript subtraction does
  not truncate, so the counts are integers.
\<close>

definition onScreenCount :: "GazeResult list \<Rightarrow> int" where
  "onScreenCount rs = int (length (filter gaze rs))"

definition offScreenCount :: "GazeResult list \<Rightarrow> int" where
  "offScreenCount rs = int (length rs) - onScreenCount rs"


section \<open>The capture pipeline: \<^verbatim>\<open>startRecording\<close> and its three timers\<close>

text \<open>
  \<^verbatim>\<open>startRecording\<close> arms an interval timer that grabs frames, an interval timer that
  counts down, and one timeout that stops everything. The model runs them in virtual
  time: the clock \<open>now\<close> counts milliseconds from the moment the timers are armed, each
  pending timer has a due time, and a timer may fire only when no pending timer is due
  earlier; firing moves the clock to the due time. Timers due at the same instant fire
  in either order. What the browser decides (whether the video plays, what a capture
  returns) arrives with the event.
\<close>

datatype recorder_state = Inactive | Recording | Paused

datatype track_state = Live | Ended

record track =
  kind :: string
  readyState :: track_state

record capture_state =
  now :: nat
  frames :: "string list"
  captures :: nat
  grabber :: "nat option"
  countdownTimer :: "nat option"
  stopTimer :: "nat option"
  currentCount :: int
  mediaRecorder :: "recorder_state option"
  onstop_pending :: bool
  stream_tracks :: "track list"
  streamRef :: bool
  ui :: ui_state
  toasts :: "string list"

text \<open>
  What \<^verbatim>\<open>startRecording\<close> meets before the timers: \<^verbatim>\<open>getUserMedia\<close> yields the tracks
  of a stream or throws, and the \<^verbatim>\<open>MediaRecorder\<close> is constructed and started on the
  stream, or throws.
\<close>

record start_env =
  getUserMedia :: "js_error + track list"
  recorder_accepts :: bool

text \<open>
  The delay \<^verbatim>\<open>(RECORDING_DURATION * 1000) / FRAME_COUNT\<close>, which \<^verbatim>\<open>setInterval\<close> truncates
  to whole milliseconds.
\<close>

definition intervalMs :: "nat \<Rightarrow> nat \<Rightarrow> nat" where
  "intervalMs D F = (D * 1000) div F"

text \<open>
  \<^verbatim>\<open>startRecording\<close> up to the point where the three timers are armed, for duration \<open>D\<close>
  and frame count \<open>F\<close>. When \<^verbatim>\<open>getUserMedia\<close> or the recorder throws, the \<^verbatim>\<open>catch\<close> block
  shows a toast and no timer is armed; in the second case the stream has been stored and
  stays live.
\<close>

definition startRecording :: "nat \<Rightarrow> nat \<Rightarrow> start_env \<Rightarrow> ui_state \<Rightarrow> capture_state" where
  "startRecording D F env u =
     (let u1 = u\<lparr>capturedFrames := [], analysisResults := None, videoURL := None\<rparr>;
          idle = \<lparr>now = 0, frames = [], captures = 0, grabber = None, countdownTimer = None,
                  stopTimer = None, currentCount = int D, mediaRecorder = None,
                  onstop_pending = False, stream_tracks = [], streamRef = False,
                  ui = u1\<lparr>recording := False\<rparr>, toasts = [''Camera Error'']\<rparr>
      in case getUserMedia env of
           Inl e \<Rightarrow> idle
         | Inr ts \<Rightarrow>
             if \<not> recorder_accepts env
             then idle\<lparr>stream_tracks := ts, streamRef := True\<rparr>
             else
               \<lparr>now = 0, frames = [], captures = 0,
                grabber = Some (intervalMs D F), countdownTimer = Some 1000,
                stopTimer = Some (D * 1000), currentCount = int D,
                mediaRecorder = Some Recording, onstop_pending = False,
                stream_tracks = ts, streamRef = True,
                ui = u1\<lparr>recording := True, count := D\<rparr>, toasts = []\<rparr>)"

datatype capture_event =
    GrabberTick bool "string option"
  | CountdownTick
  | StopTimeout
  | RecorderHalted
  | OnStop string

text \<open>No pending timer is due before \<open>t\<close>.\<close>

definition not_before :: "nat \<Rightarrow> nat option \<Rightarrow> bool" where
  "not_before t timer = (case timer of None \<Rightarrow> True | Some u \<Rightarrow> t \<le> u)"

definition earliest :: "capture_state \<Rightarrow> nat \<Rightarrow> bool" where
  "earliest s t =
     (not_before t (grabber s) \<and> not_before t (countdownTimer s) \<and> not_before t (stopTimer s))"

text \<open>
  The callback of the frame grabber. \<open>GrabberTick ready result\<close>: \<open>ready\<close> says that the
  video element exists and is neither paused nor ended, \<open>result\<close> is what
  \<^verbatim>\<open>captureFrame\<close> returns (\<open>None\<close> for null). A tick that finds the stream or video not
  ready returns before the counter; a tick whose capture gives nothing still counts.
\<close>

definition grabber_tick :: "nat \<Rightarrow> bool \<Rightarrow> string option \<Rightarrow> capture_state \<Rightarrow> capture_state" where
  "grabber_tick F ready result s =
     (if \<not> streamRef s \<or> \<not> ready then s
      else
        (let s1 = (case result of
                     None \<Rightarrow> s
                   | Some f \<Rightarrow> if f = [] then s else s\<lparr>frames := frames s @ [f]\<rparr>);
             s2 = s1\<lparr>captures := captures s1 + 1\<rparr>
         in if captures s2 \<ge> F then s2\<lparr>grabber := None\<rparr> else s2))"

text \<open>The callback of the countdown.\<close>

definition countdown_tick :: "capture_state \<Rightarrow> capture_state" where
  "countdown_tick s =
     (let s1 = s\<lparr>currentCount := currentCount s - 1\<rparr>
      in if currentCount s1 > 0
         then s1\<lparr>ui := (ui s1)\<lparr>count := nat (currentCount s1)\<rparr>\<rparr>
         else s1\<lparr>countdownTimer := None\<rparr>)"

text \<open>
  The callback of the timeout: clears both intervals, stops the recorder unless it is
  inactive, stops every track of the stream and clears the reference, publishes the
  frames, and warns when fewer than \<open>F\<close> were captured.
\<close>

definition stop_track :: "track \<Rightarrow> track" where
  "stop_track t = t\<lparr>readyState := Ended\<rparr>"

definition stop_timeout :: "nat \<Rightarrow> nat \<Rightarrow> capture_state \<Rightarrow> capture_state" where
  "stop_timeout D F s =
     (let s1 = s\<lparr>countdownTimer := None, grabber := None\<rparr>;
          s2 = (case mediaRecorder s1 of
                  None \<Rightarrow> s1
                | Some st \<Rightarrow>
                    if st \<noteq> Inactive
                    then s1\<lparr>mediaRecorder := Some Inactive, onstop_pending := True\<rparr>
                    else s1);
          s3 = (if streamRef s2
                then s2\<lparr>stream_tracks := map stop_track (stream_tracks s2), streamRef := False\<rparr>
                else s2);
          s4 = s3\<lparr>ui := (ui s3)\<lparr>recording := False, count := D, capturedFrames := frames s3\<rparr>\<rparr>
      in if length (frames s4) < F then s4\<lparr>toasts := toasts s4 @ [''Warning'']\<rparr> else s4)"

text \<open>
  One event. A timer event whose timer is cleared, or which is not the earliest due, does
  not occur and leaves the state as it is. \<open>RecorderHalted\<close> is the recorder going
  inactive by itself; \<open>OnStop url\<close> is its \<^verbatim>\<open>onstop\<close> handler, which publishes the
  object URL of the recorded blob.
\<close>

fun fire :: "nat \<Rightarrow> nat \<Rightarrow> capture_event \<Rightarrow> capture_state \<Rightarrow> capture_state" where
  "fire D F (GrabberTick ready result) s =
     (case grabber s of
        None \<Rightarrow> s
      | Some t \<Rightarrow>
          if earliest s t
          then grabber_tick F ready result (s\<lparr>now := t, grabber := Some (t + intervalMs D F)\<rparr>)
          else s)"
| "fire D F CountdownTick s =
     (case countdownTimer s of
        None \<Rightarrow> s
      | Some t \<Rightarrow>
          if earliest s t
          then countdown_tick (s\<lparr>now := t, countdownTimer := Some (t + 1000)\<rparr>)
          else s)"
| "fire D F StopTimeout s =
     (case stopTimer s of
        None \<Rightarrow> s
      | Some t \<Rightarrow>
          if earliest s t
          then stop_timeout D F (s\<lparr>now := t, stopTimer := None\<rparr>)
          else s)"
| "fire D F RecorderHalted s =
     (if mediaRecorder s = Some Recording \<or> mediaRecorder s = Some Paused
      then s\<lparr>mediaRecorder := Some Inactive, onstop_pending := True\<rparr>
      else s)"
| "fire D F (OnStop url) s =
     (if onstop_pending s
      then s\<lparr>onstop_pending := False, ui := (ui s)\<lparr>videoURL := Some url\<rparr>\<rparr>
      else s)"

fun run :: "nat \<Rightarrow> nat \<Rightarrow> capture_event list \<Rightarrow> capture_state \<Rightarrow> capture_state" where
  "run D F [] s = s"
| "run D F (e # es) s = run D F es (fire D F e s)"

definition all_stopped :: "capture_state \<Rightarrow> bool" where
  "all_stopped s =
     (mediaRecorder s = Some Inactive \<and> list_all (\<lambda>t. readyState t = Ended) (stream_tracks s))"


section \<open>Fallback extraction: \<^verbatim>\<open>extractFramesFromVideo\<close>\<close>

text \<open>Comparison and arithmetic of JavaScript numbers, as far as the extraction uses them.\<close>

fun js_less :: "js_number \<Rightarrow> js_number \<Rightarrow> bool" where
  "js_less NaN y = False"
| "js_less x NaN = False"
| "js_less PosInfinity y = False"
| "js_less NegInfinity y = (y \<noteq> NegInfinity)"
| "js_less (Finite a) PosInfinity = True"
| "js_less (Finite a) NegInfinity = False"
| "js_less (Finite a) (Finite b) = (a < b)"

fun js_le_zero :: "js_number \<Rightarrow> bool" where
  "js_le_zero NaN = False"
| "js_le_zero PosInfinity = False"
| "js_le_zero NegInfinity = True"
| "js_le_zero (Finite r) = (r \<le> 0)"

text \<open>\<^verbatim>\<open>x / n\<close> and \<^verbatim>\<open>n * x\<close> for a count \<open>n\<close>.\<close>

fun js_div_count :: "js_number \<Rightarrow> nat \<Rightarrow> js_number" where
  "js_div_count NaN n = NaN"
| "js_div_count PosInfinity n = PosInfinity"
| "js_div_count NegInfinity n = NegInfinity"
| "js_div_count (Finite r) n =
     (if n = 0 then (if r = 0 then NaN else if 0 < r then PosInfinity else NegInfinity)
      else Finite (r / of_nat n))"

fun js_mul_count :: "nat \<Rightarrow> js_number \<Rightarrow> js_number" where
  "js_mul_count n NaN = NaN"
| "js_mul_count n PosInfinity = (if n = 0 then NaN else PosInfinity)"
| "js_mul_count n NegInfinity = (if n = 0 then NaN else NegInfinity)"
| "js_mul_count n (Finite r) = Finite (of_nat n * r)"

text \<open>
  The test \<^verbatim>\<open>!video.duration || !isFinite(video.duration) || video.duration <= 0\<close>.
\<close>

definition invalid_duration :: "js_number \<Rightarrow> bool" where
  "invalid_duration d = (falsy_number d \<or> \<not> isFinite d \<or> js_le_zero d)"

datatype promise_state = Pending | Resolved "string list" | Rejected string

text \<open>
  The state of one call: the promise, the local array \<^verbatim>\<open>frames\<close>, the video element
  (its source, its duration, the handlers installed on it, the positions assigned to
  \<^verbatim>\<open>currentTime\<close> in order, whether a seek is under way, whether \<^verbatim>\<open>play\<close> was called),
  the counters of the two capture procedures, and the number of running capture
  intervals.
\<close>

record extraction =
  promise :: promise_state
  frames_ex :: "string list"
  src :: string
  handlers_set :: bool
  metadata_loaded :: bool
  duration :: js_number
  onseeked_set :: bool
  frameInterval :: js_number
  framesProcessed :: nat
  seeks :: "rat list"
  seek_pending :: bool
  onplay_set :: bool
  play_called :: bool
  framesCaptured :: nat
  startTime :: int
  capture_intervals :: nat

text \<open>A promise settles once; later calls of \<^verbatim>\<open>resolve\<close> and \<^verbatim>\<open>reject\<close> do nothing.\<close>

definition resolve :: "extraction \<Rightarrow> extraction" where
  "resolve s = (if promise s = Pending then s\<lparr>promise := Resolved (frames_ex s)\<rparr> else s)"

definition reject :: "string \<Rightarrow> extraction \<Rightarrow> extraction" where
  "reject msg s = (if promise s = Pending then s\<lparr>promise := Rejected msg\<rparr> else s)"

text \<open>\<^verbatim>\<open>cleanup\<close>: pause, empty the source, reload; a seek under way is abandoned.\<close>

definition cleanup :: "extraction \<Rightarrow> extraction" where
  "cleanup s = s\<lparr>src := [], seek_pending := False\<rparr>"

text \<open>
  The synchronous part of \<^verbatim>\<open>extractFramesFromVideo(videoUrl, frameCount)\<close>. \<open>ctx\<close> says
  whether the canvas gave a 2D context; without one the promise is rejected before the
  video element is set up.
\<close>

definition extractFramesFromVideo :: "string \<Rightarrow> nat \<Rightarrow> bool \<Rightarrow> extraction" where
  "extractFramesFromVideo videoUrl frameCount ctx =
     (let s0 = \<lparr>promise = Pending, frames_ex = [], src = [], handlers_set = False,
                metadata_loaded = False, duration = NaN, onseeked_set = False,
                frameInterval = NaN, framesProcessed = 0, seeks = [], seek_pending = False,
                onplay_set = False, play_called = False, framesCaptured = 0, startTime = 0,
                capture_intervals = 0\<rparr>
      in if \<not> ctx then reject ''Could not get canvas context'' s0
         else s0\<lparr>src := videoUrl, handlers_set := True\<rparr>)"

text \<open>
  The events of the video element and of the timer:
  \<^item> \<open>VideoError\<close>: \<^verbatim>\<open>onerror\<close>;
  \<^item> \<open>LoadedMetadata d t\<close>: \<^verbatim>\<open>onloadedmetadata\<close>, with the duration the element reports
    and the reading of \<^verbatim>\<open>Date.now()\<close>; the element loads one resource, so the event is
    taken once;
  \<^item> \<open>Seeked r\<close>: \<^verbatim>\<open>onseeked\<close>, which follows a seek; \<open>r\<close> is the data URL drawn from
    the canvas, or \<open>None\<close> when drawing throws;
  \<^item> \<open>PlayStarted\<close>: \<^verbatim>\<open>onplay\<close>; \<open>PlayRejected e\<close>: the promise of \<^verbatim>\<open>play()\<close> rejects;
  \<^item> \<open>IntervalTick t r\<close>: a capture interval fires, with the reading of \<^verbatim>\<open>Date.now()\<close>
    and the result of drawing.
\<close>

datatype extract_event =
    VideoError
  | LoadedMetadata js_number int
  | Seeked "string option"
  | PlayStarted
  | PlayRejected string
  | IntervalTick int "string option"

text \<open>
  \<^verbatim>\<open>captureFramesOverTime\<close>: reset the counter, read the clock (\<open>t\<close>), install
  \<^verbatim>\<open>onplay\<close> and call \<^verbatim>\<open>play\<close>.
\<close>

definition captureFramesOverTime :: "int \<Rightarrow> extraction \<Rightarrow> extraction" where
  "captureFramesOverTime t s =
     s\<lparr>framesCaptured := 0, startTime := t, onplay_set := True, play_called := True\<rparr>"

text \<open>
  The body of \<^verbatim>\<open>onloadedmetadata\<close>: with an unusable duration, capture over time;
  otherwise set the frame interval, install \<^verbatim>\<open>onseeked\<close> and seek to 0.
\<close>

definition on_loadedmetadata :: "nat \<Rightarrow> js_number \<Rightarrow> int \<Rightarrow> extraction \<Rightarrow> extraction" where
  "on_loadedmetadata frameCount d t s =
     (let s1 = s\<lparr>metadata_loaded := True, duration := d\<rparr>
      in if invalid_duration d
         then captureFramesOverTime t s1
         else s1\<lparr>frameInterval := js_div_count d frameCount, framesProcessed := 0,
                 onseeked_set := True, seeks := seeks s1 @ [0], seek_pending := True\<rparr>)"

text \<open>\<^verbatim>\<open>captureVideoFrame\<close>, the handler of \<^verbatim>\<open>onseeked\<close>.\<close>

definition captureVideoFrame :: "nat \<Rightarrow> string option \<Rightarrow> extraction \<Rightarrow> extraction" where
  "captureVideoFrame frameCount r s =
     (let s1 = (case r of None \<Rightarrow> s | Some dataUrl \<Rightarrow> s\<lparr>frames_ex := frames_ex s @ [dataUrl]\<rparr>);
          s2 = s1\<lparr>framesProcessed := framesProcessed s1 + 1, seek_pending := False\<rparr>
      in if framesProcessed s2 \<ge> frameCount then resolve (cleanup s2)
         else
           (case js_mul_count (framesProcessed s2) (frameInterval s2) of
              Finite nextTime \<Rightarrow>
                if js_less (Finite nextTime) (duration s2)
                then s2\<lparr>seeks := seeks s2 @ [nextTime], seek_pending := True\<rparr>
                else resolve (cleanup s2)
            | _ \<Rightarrow> resolve (cleanup s2)))"

text \<open>The callback of the capture interval set up in \<^verbatim>\<open>captureFramesOverTime\<close>.\<close>

definition totalDuration :: int where
  "totalDuration = 2000"

definition capture_interval_tick :: "nat \<Rightarrow> int \<Rightarrow> string option \<Rightarrow> extraction \<Rightarrow> extraction" where
  "capture_interval_tick frameCount t r s =
     (let elapsed = t - startTime s
      in if framesCaptured s \<ge> frameCount \<or> elapsed \<ge> totalDuration
         then resolve (cleanup (s\<lparr>capture_intervals := capture_intervals s - 1\<rparr>))
         else
           (case r of
              None \<Rightarrow> s
            | Some dataUrl \<Rightarrow>
                s\<lparr>frames_ex := frames_ex s @ [dataUrl], framesCaptured := framesCaptured s + 1\<rparr>))"

text \<open>One event; an event whose handler is not installed, or which cannot occur, changes nothing.\<close>

fun handle :: "nat \<Rightarrow> extract_event \<Rightarrow> extraction \<Rightarrow> extraction" where
  "handle frameCount VideoError s =
     (if handlers_set s then reject ''Video loading failed'' s else s)"
| "handle frameCount (LoadedMetadata d t) s =
     (if handlers_set s \<and> \<not> metadata_loaded s then on_loadedmetadata frameCount d t s else s)"
| "handle frameCount (Seeked r) s =
     (if onseeked_set s \<and> seek_pending s then captureVideoFrame frameCount r s else s)"
| "handle frameCount PlayStarted s =
     (if onplay_set s then s\<lparr>capture_intervals := capture_intervals s + 1\<rparr> else s)"
| "handle frameCount (PlayRejected e) s =
     (if play_called s then reject e s else s)"
| "handle frameCount (IntervalTick t r) s =
     (if capture_intervals s > 0 then capture_interval_tick frameCount t r s else s)"

fun extract_run :: "nat \<Rightarrow> extract_event list \<Rightarrow> extraction \<Rightarrow> extraction" where
  "extract_run frameCount [] s = s"
| "extract_run frameCount (e # es) s = extract_run frameCount es (handle frameCount e s)"

text \<open>The data URLs of the draws that succeeded, in order.\<close>

fun drawn :: "string option list \<Rightarrow> string list" where
  "drawn [] = []"
| "drawn (None # rs) = drawn rs"
| "drawn (Some u # rs) = u # drawn rs"


section \<open>Predicates used to state the properties\<close>

text \<open>
  A well-formed entry of a result list in a response body: an object with exactly the
  properties \<^verbatim>\<open>frame\<close> (a number), \<^verbatim>\<open>gaze\<close> (a boolean) and \<^verbatim>\<open>confidence\<close> (a number). A
  number in a body is finite.
\<close>

fun is_number :: "json option \<Rightarrow> bool" where
  "is_number (Some (JNum n)) = isFinite n"
| "is_number _ = False"

fun is_boolean :: "json option \<Rightarrow> bool" where
  "is_boolean (Some (JBool b)) = True"
| "is_boolean _ = False"

definition well_formed_entry :: "json \<Rightarrow> bool" where
  "well_formed_entry j =
     (case j of
        JObj kvs \<Rightarrow>
          map fst kvs = [''frame'', ''gaze'', ''confidence''] \<and>
          is_number (map_of kvs ''frame'') \<and> is_boolean (map_of kvs ''gaze'') \<and>
          is_number (map_of kvs ''confidence'')
      | _ \<Rightarrow> False)"

text \<open>
  The part of that shape which does not depend on the numbers: an object with exactly
  these three properties, of which \<^verbatim>\<open>gaze\<close> is a boolean.
\<close>

definition judgment_keyed :: "json \<Rightarrow> bool" where
  "judgment_keyed j =
     (case j of
        JObj kvs \<Rightarrow>
          map fst kvs = [''frame'', ''gaze'', ''confidence''] \<and> is_boolean (map_of kvs ''gaze'')
      | _ \<Rightarrow> False)"

definition has_property :: "string \<Rightarrow> json \<Rightarrow> bool" where
  "has_property k j = (case j of JObj kvs \<Rightarrow> k \<in> set (map fst kvs) | _ \<Rightarrow> False)"

text \<open>
  The entries of the frames text for frames that are strings: the frame at index \<open>i\<close>
  under the template, in input order.
\<close>

definition labelled_frames :: "string list \<Rightarrow> string list" where
  "labelled_frames fs = map (\<lambda>i. frame_entry i (fs ! i)) [0..<length fs]"

text \<open>The number a string of decimal digits denotes.\<close>

definition digits_value :: "string \<Rightarrow> nat" where
  "digits_value s = foldl (\<lambda>a c. 10 * a + (of_char c - 48)) 0 s"


text \<open>
  A timer event that can fire in a state: its timer is pending and no pending timer is
  due earlier. A run of firings is a list of events each of which can fire when its turn
  comes.
\<close>

fun timer_enabled :: "capture_event \<Rightarrow> capture_state \<Rightarrow> bool" where
  "timer_enabled (GrabberTick ready result) s =
     (case grabber s of None \<Rightarrow> False | Some t \<Rightarrow> earliest s t)"
| "timer_enabled CountdownTick s =
     (case countdownTimer s of None \<Rightarrow> False | Some t \<Rightarrow> earliest s t)"
| "timer_enabled StopTimeout s =
     (case stopTimer s of None \<Rightarrow> False | Some t \<Rightarrow> earliest s t)"
| "timer_enabled _ s = False"

fun firings :: "nat \<Rightarrow> nat \<Rightarrow> capture_event list \<Rightarrow> capture_state \<Rightarrow> bool" where
  "firings D F [] s = True"
| "firings D F (e # es) s = (timer_enabled e s \<and> firings D F es (fire D F e s))"

text \<open>
  The invariant of a recording that has started, and the number of timer firings that
  remain possible up to the deadline \<open>D * 1000\<close>.
\<close>

definition capture_inv :: "nat \<Rightarrow> nat \<Rightarrow> capture_state \<Rightarrow> bool" where
  "capture_inv D F s =
     (length (frames s) \<le> captures s \<and> captures s \<le> F \<and>
      (grabber s \<noteq> None \<longrightarrow> captures s < F) \<and>
      length (capturedFrames (ui s)) \<le> F \<and>
      (case stopTimer s of
         Some t \<Rightarrow> t = D * 1000 \<and> now s \<le> D * 1000 \<and> streamRef s \<and> mediaRecorder s \<noteq> None
       | None \<Rightarrow>
           now s = D * 1000 \<and> all_stopped s \<and> grabber s = None \<and> countdownTimer s = None \<and>
           \<not> streamRef s \<and> capturedFrames (ui s) = frames s \<and> \<not> recording (ui s)))"

definition firings_left :: "nat \<Rightarrow> nat \<Rightarrow> nat option \<Rightarrow> nat" where
  "firings_left deadline period timer =
     (case timer of
        None \<Rightarrow> 0
      | Some t \<Rightarrow> if t \<le> deadline then (deadline - t) div period + 1 else 0)"

definition remaining :: "nat \<Rightarrow> nat \<Rightarrow> capture_state \<Rightarrow> nat" where
  "remaining D F s =
     firings_left (D * 1000) (intervalMs D F) (grabber s) +
     firings_left (D * 1000) 1000 (countdownTimer s) +
     (case stopTimer s of None \<Rightarrow> 0 | Some t \<Rightarrow> 1)"

text \<open>
  A recording for concrete runs: one live video track, and seven timer firings with the
  constants of the component (three captures succeed, one fails).
\<close>

definition demo_env :: start_env where
  "demo_env =
     \<lparr>getUserMedia = Inr [\<lparr>kind = ''video'', readyState = Live\<rparr>], recorder_accepts = True\<rparr>"

definition demo_events :: "capture_event list" where
  "demo_events =
     [GrabberTick True (Some ''data:a''), GrabberTick True None, CountdownTick,
      GrabberTick True (Some ''data:c''), GrabberTick True (Some ''data:d''), CountdownTick,
      StopTimeout]"


text \<open>
  Extraction by seeking: the state reached from a valid duration \<open>d\<close> after \<open>k\<close> of the
  \<open>frameCount\<close> seeks have completed with the draw results \<open>rs\<close>.
\<close>

definition seek_positions :: "nat \<Rightarrow> rat \<Rightarrow> nat \<Rightarrow> rat list" where
  "seek_positions frameCount d n = map (\<lambda>i. of_nat i * (d / of_nat frameCount)) [0..<n]"

definition seek_state :: "string \<Rightarrow> nat \<Rightarrow> rat \<Rightarrow> nat \<Rightarrow> string option list \<Rightarrow> extraction" where
  "seek_state videoUrl frameCount d k rs =
     \<lparr>promise = (if k < frameCount then Pending else Resolved (drawn rs)),
      frames_ex = drawn rs,
      src = (if k < frameCount then videoUrl else []),
      handlers_set = True, metadata_loaded = True, duration = Finite d, onseeked_set = True,
      frameInterval = Finite (d / of_nat frameCount), framesProcessed = k,
      seeks = seek_positions frameCount d (if k < frameCount then Suc k else frameCount),
      seek_pending = (k < frameCount),
      onplay_set = False, play_called = False, framesCaptured = 0, startTime = 0,
      capture_intervals = 0\<rparr>"

text \<open>
  Extraction by playing: what holds in every state after the metadata event reported an
  unusable duration at time \<open>t0\<close>.
\<close>

definition play_inv :: "nat \<Rightarrow> int \<Rightarrow> extraction \<Rightarrow> bool" where
  "play_inv frameCount t0 s =
     (seeks s = [] \<and> \<not> onseeked_set s \<and> handlers_set s \<and> metadata_loaded s \<and>
      play_called s \<and> startTime s = t0 \<and>
      length (frames_ex s) = framesCaptured s \<and> framesCaptured s \<le> frameCount \<and>
      (case promise s of Resolved fs \<Rightarrow> length fs \<le> frameCount | _ \<Rightarrow> True))"

text \<open>Events for concrete runs of the extraction by playing, started at clock reading 100.\<close>

definition demo_play_events :: "extract_event list" where
  "demo_play_events =
     [PlayStarted, IntervalTick 600 (Some ''data:a''), IntervalTick 1100 None,
      IntervalTick 1600 (Some ''data:c''), IntervalTick 2100 (Some ''data:d'')]"

section \<open>Properties of the analysis proxy\<close>

subsection \<open>Auxiliary facts\<close>

lemma digits_value_snoc: "digits_value (s @ [c]) = 10 * digits_value s + (of_char c - 48)"
  by (simp add: digits_value_def)

lemma of_char_digit: "d < 10 \<Longrightarrow> of_char (digit d) = 48 + d"
  by (simp add: digit_def)

lemma digits_value_decimal: "digits_value (decimal n) = n"
proof (induction n rule: decimal.induct)
  case (1 n)
  show ?case
  proof (cases "n < 10")
    case True
    then show ?thesis
      by (subst decimal.simps) (simp add: digits_value_def of_char_digit)
  next
    case False
    then have "digits_value (decimal (n div 10)) = n div 10"
      using "1" by simp
    then show ?thesis
      using False
      by (subst decimal.simps) (simp add: digits_value_snoc of_char_digit)
  qed
qed

lemma map_frames_strings:
  "map_frames ns k (map JStr fs) = Inr (map (\<lambda>i. frame_entry (k + i) (fs ! i)) [0..<length fs])"
proof (induction fs arbitrary: k)
  case Nil
  show ?case by simp
next
  case (Cons f fs)
  show ?case
    by (simp add: Cons.IH map_upt_Suc del: upt_Suc)
qed

lemma framesContent_strings:
  "framesContent ns (map JStr fs) = Inr (join ''\<newline>\<newline>'' (labelled_frames fs))"
  by (simp add: framesContent_def map_frames_strings labelled_frames_def)

lemma join_append:
  "join sep (xs @ ys) =
     (if xs = [] then join sep ys else if ys = [] then join sep xs
      else join sep xs @ sep @ join sep ys)"
proof (induction sep xs rule: join.induct)
  case (1 sep)
  show ?case by simp
next
  case (2 sep x)
  show ?case by (cases ys) simp_all
next
  case (3 sep x y zs)
  then show ?case by simp
qed

lemma join_at:
  assumes "i < length xs"
  shows "join sep xs =
           join sep (take i xs) @ (if i = 0 then [] else sep) @ xs ! i @
           (if Suc i = length xs then [] else sep) @ join sep (drop (Suc i) xs)"
proof -
  have "xs = take i xs @ (xs ! i # drop (Suc i) xs)"
    using assms by (simp add: id_take_nth_drop)
  then have "join sep xs = join sep (take i xs @ ([xs ! i] @ drop (Suc i) xs))"
    by simp
  also have "\<dots> = join sep (take i xs) @ (if i = 0 then [] else sep) @ xs ! i @
           (if Suc i = length xs then [] else sep) @ join sep (drop (Suc i) xs)"
    using assms by (simp only: join_append) (auto simp: not_less)
  finally show ?thesis .
qed

lemma destructure_frames_body:
  "destructure_frames (frames_body fs) = Inr (Some (JArr (map JStr fs)))"
  by (simp add: frames_body_def)

lemma POST_structured_frames:
  assumes "JSON_parse rt request = Some parsed"
    and "destructure_frames parsed = Inr (Some (JArr (map JStr fs)))" and "fs \<noteq> []"
  shows "POST_structured rt request =
           (case generateObject rt (structured_call (join ''\<newline>\<newline>'' (labelled_frames fs)))
                   gazeSchema_structured of
              Inl e \<Rightarrow>
                (service_failure_response,
                 [structured_call (join ''\<newline>\<newline>'' (labelled_frames fs))])
            | Inr results \<Rightarrow>
                (NextResponse_json (JArr (map judgment_json results)) 200,
                 [structured_call (join ''\<newline>\<newline>'' (labelled_frames fs))]))"
  using assms
  by (simp add: POST_structured_def framesContent_strings Let_def)

lemma POST_text_frames:
  assumes "JSON_parse rt request = Some parsed"
    and "destructure_frames parsed = Inr (Some (JArr (map JStr fs)))" and "fs \<noteq> []"
  shows "POST_text rt request =
           (case generateText rt (text_call (join ''\<newline>\<newline>'' (labelled_frames fs))) of
              Inl e \<Rightarrow>
                (service_failure_response, [text_call (join ''\<newline>\<newline>'' (labelled_frames fs))])
            | Inr txt \<Rightarrow>
                (NextResponse_json (JStr txt) 200,
                 [text_call (join ''\<newline>\<newline>'' (labelled_frames fs))]))"
  using assms
  by (simp add: POST_text_def framesContent_strings Let_def)

lemma decimal_2: "decimal 2 = ''2''" "decimal (Suc (Suc 0)) = ''2''"
  by code_simp+

lemma stringify_elements_map: "stringify_elements xs = map JSON_stringify xs"
  by (induction xs) simp_all

lemma stringify_error_body [simp]: "JSON_stringify (error_body msg) = error_body msg"
  by (simp add: error_body_def)

lemma NextResponse_json_results:
  "NextResponse_json (JArr (map judgment_json results)) st
     = \<lparr>status = st, body = JArr (map (\<lambda>r. JSON_stringify (judgment_json r)) results)\<rparr>"
  by (simp add: NextResponse_json_def stringify_elements_map)

lemma judgment_json_keyed: "judgment_keyed (JSON_stringify (judgment_json r))"
  by (simp add: judgment_keyed_def judgment_json_def)

lemma judgment_json_well_formed:
  assumes "isFinite (frame r)" and "isFinite (confidence r)"
  shows "well_formed_entry (JSON_stringify (judgment_json r))"
  using assms by (simp add: well_formed_entry_def judgment_json_def)

lemma judgment_json_no_eyesClosed:
  "\<not> has_property ''eyesClosed'' (JSON_stringify (judgment_json r))"
  by (simp add: has_property_def judgment_json_def)

lemma service_failure_status: "status service_failure_response = 500"
  by (simp add: service_failure_response_def NextResponse_json_def)

lemma demo_parse_one:
  \<open>JSON_parse demo_runtime ''{"frames":["data:a"]}'' = Some (frames_body [''data:a''])\<close>
  by (simp add: demo_runtime_def parse_table_def)

lemma demo_generateObject:
  "generateObject demo_runtime c gazeSchema_structured
     = Inr [\<lparr>frame = Finite 1, gaze = True, confidence = Finite 90\<rparr>,
            \<lparr>frame = Finite 2, gaze = False, confidence = Finite 40\<rparr>]"
  by (simp add: generateObject_def demo_runtime_def parse_table_def two_judgments_def
      two_judgments_text_def overflow_judgments_text_def gazeSchema_structured_def result_entry_structured_def)

lemma demo_POST_structured_one:
  \<open>fst (POST_structured demo_runtime ''{"frames":["data:a"]}'') =
     \<lparr>status = 200,
      body = JArr [JObj [(''frame'', JNum (Finite 1)), (''gaze'', JBool True),
                         (''confidence'', JNum (Finite 90))],
                   JObj [(''frame'', JNum (Finite 2)), (''gaze'', JBool False),
                         (''confidence'', JNum (Finite 40))]]\<rparr>\<close>
  using POST_structured_frames [OF demo_parse_one destructure_frames_body]
  by (simp add: demo_generateObject NextResponse_json_def judgment_json_def)

lemma overflow_parse_one:
  \<open>JSON_parse overflow_runtime ''{"frames":["data:a"]}'' = Some (frames_body [''data:a''])\<close>
  by (simp add: overflow_runtime_def demo_runtime_def parse_table_def)

lemma overflow_generateObject:
  "generateObject overflow_runtime c gazeSchema_structured
     = Inr [\<lparr>frame = Finite 1, gaze = True, confidence = PosInfinity\<rparr>,
            \<lparr>frame = Finite 2, gaze = False, confidence = Finite 40\<rparr>]"
  by (simp add: generateObject_def overflow_runtime_def demo_runtime_def parse_table_def
      overflow_judgments_def two_judgments_text_def overflow_judgments_text_def
      gazeSchema_structured_def result_entry_structured_def)

lemma overflow_POST_structured_one:
  \<open>fst (POST_structured overflow_runtime ''{"frames":["data:a"]}'') =
     \<lparr>status = 200,
      body = JArr [JObj [(''frame'', JNum (Finite 1)), (''gaze'', JBool True),
                         (''confidence'', JNull)],
                   JObj [(''frame'', JNum (Finite 2)), (''gaze'', JBool False),
                         (''confidence'', JNum (Finite 40))]]\<rparr>\<close>
  using POST_structured_frames [OF overflow_parse_one destructure_frames_body]
  by (simp add: overflow_generateObject NextResponse_json_def judgment_json_def)

lemma sublist_later:
  assumes "sublist xs ys"
  shows "sublist xs (zs @ ys)"
proof -
  from assms obtain ps ss where "ys = ps @ xs @ ss"
    unfolding sublist_def by blast
  then have "zs @ ys = (zs @ ps) @ xs @ ss"
    by simp
  then show ?thesis
    unfolding sublist_def by blast
qed

lemma sublist_earlier:
  assumes "sublist xs ys"
  shows "sublist xs (ys @ zs)"
proof -
  from assms obtain ps ss where "ys = ps @ xs @ ss"
    unfolding sublist_def by blast
  then have "ys @ zs = ps @ xs @ (ss @ zs)"
    by simp
  then show ?thesis
    unfolding sublist_def by blast
qed

lemma text_instructions_mention_eyesClosed: "sublist ''eyesClosed'' instructions_text"
  unfolding instructions_text_def
  by (rule sublist_append_rightI | rule sublist_later)+

lemma text_prompt_mentions_eyesClosed: "sublist ''eyesClosed'' (prompt (text_call content))"
proof -
  have "sublist ''eyesClosed'' (instructions_text @ content)"
    using text_instructions_mention_eyesClosed by (rule sublist_earlier)
  then show ?thesis
    by (simp add: text_call_def)
qed

lemma POST_structured_200:
  assumes "status (fst (POST_structured rt request)) = 200"
  shows "\<exists>results. body (fst (POST_structured rt request))
           = JArr (map (\<lambda>r. JSON_stringify (judgment_json r)) results)"
  using assms
  by (auto simp: POST_structured_def outer_catch_def no_frames_response_def
      service_failure_response_def NextResponse_json_def stringify_elements_map Let_def
      comp_def split: option.splits sum.splits if_splits)

lemma POST_text_200:
  assumes "status (fst (POST_text rt request)) = 200"
  shows "\<exists>content reply. POST_text rt request = (\<lparr>status = 200, body = JStr reply\<rparr>, [text_call content]) \<and>
           language_model rt (text_call content) = Some reply"
  using assms
  by (auto simp: POST_text_def outer_catch_def no_frames_response_def
      service_failure_response_def NextResponse_json_def Let_def generateText_def
      split: option.splits sum.splits if_splits)

lemma demo_POST_text_one:
  \<open>fst (POST_text demo_runtime ''{"frames":["data:a"]}'') = \<lparr>status = 200, body = JStr two_judgments_text\<rparr>\<close>
  using POST_text_frames [OF demo_parse_one destructure_frames_body]
  by (simp add: generateText_def demo_runtime_def NextResponse_json_def)

subsection \<open>The claims about the proxy\<close>

text \<open>
  Claim C1, as amended. For every request whose body parses to a value with a non-empty
  list of frame strings as its \<^verbatim>\<open>frames\<close>, the structured route calls \<^verbatim>\<open>generateObject\<close>
  once and answers either with the status 500 response of the inner \<^verbatim>\<open>catch\<close>, or with
  status 200 and the serialised list of the judgments that \<^verbatim>\<open>generateObject\<close> returned
  after validation. That list has as many entries as the model gave; nothing bounds it by
  the number of frames. Each entry is an object with exactly the properties \<^verbatim>\<open>frame\<close>,
  \<^verbatim>\<open>gaze\<close> and \<^verbatim>\<open>confidence\<close>, of which \<^verbatim>\<open>gaze\<close> is a boolean, and it is well-formed, with
  a numeric \<^verbatim>\<open>frame\<close> and a numeric \<^verbatim>\<open>confidence\<close>, whenever the two numbers of the
  judgment are finite.
\<close>

theorem structured_response_shape:
  assumes "JSON_parse rt request = Some parsed"
    and "destructure_frames parsed = Inr (Some (JArr (map JStr fs)))" and "fs \<noteq> []"
  shows "snd (POST_structured rt request)
           = [structured_call (join ''\<newline>\<newline>'' (labelled_frames fs))] \<and>
         ((\<exists>results.
             generateObject rt (structured_call (join ''\<newline>\<newline>'' (labelled_frames fs)))
               gazeSchema_structured = Inr results \<and>
             fst (POST_structured rt request)
               = \<lparr>status = 200,
                  body = JArr (map (\<lambda>r. JSON_stringify (judgment_json r)) results)\<rparr> \<and>
             (\<forall>r \<in> set results.
                judgment_keyed (JSON_stringify (judgment_json r)) \<and>
                (isFinite (frame r) \<and> isFinite (confidence r) \<longrightarrow>
                   well_formed_entry (JSON_stringify (judgment_json r))))) \<or>
          (fst (POST_structured rt request) = service_failure_response \<and>
           status service_failure_response = 500))"
proof (cases "generateObject rt (structured_call (join ''\<newline>\<newline>'' (labelled_frames fs)))
                gazeSchema_structured")
  case (Inl e)
  then show ?thesis
    using assms by (simp add: POST_structured_frames service_failure_status)
next
  case (Inr results)
  have "\<forall>r \<in> set results.
          judgment_keyed (JSON_stringify (judgment_json r)) \<and>
          (isFinite (frame r) \<and> isFinite (confidence r) \<longrightarrow>
             well_formed_entry (JSON_stringify (judgment_json r)))"
    using judgment_json_keyed judgment_json_well_formed by blast
  then show ?thesis
    using assms Inr by (simp add: POST_structured_frames NextResponse_json_results)
qed

theorem structured_response_shape_witness:
  \<open>JSON_parse demo_runtime ''{"frames":["data:a"]}'' = Some (frames_body [''data:a'']) \<and>
   snd (POST_structured demo_runtime ''{"frames":["data:a"]}'')
     = [structured_call (join ''\<newline>\<newline>'' (labelled_frames [''data:a'']))] \<and>
   fst (POST_structured demo_runtime ''{"frames":["data:a"]}'')
     = \<lparr>status = 200,
        body = JArr [JObj [(''frame'', JNum (Finite 1)), (''gaze'', JBool True),
                           (''confidence'', JNum (Finite 90))],
                     JObj [(''frame'', JNum (Finite 2)), (''gaze'', JBool False),
                           (''confidence'', JNum (Finite 40))]]\<rparr> \<and>
   well_formed_entry
     (JSON_stringify (judgment_json \<lparr>frame = Finite 1, gaze = True, confidence = Finite 90\<rparr>)) \<and>
   well_formed_entry
     (JSON_stringify (judgment_json \<lparr>frame = Finite 2, gaze = False, confidence = Finite 40\<rparr>))\<close>
proof -
  have ne: "[''data:a''] \<noteq> []"
    by simp
  note t = structured_response_shape [OF demo_parse_one destructure_frames_body ne]
  from t have calls: \<open>snd (POST_structured demo_runtime ''{"frames":["data:a"]}'')
     = [structured_call (join ''\<newline>\<newline>'' (labelled_frames [''data:a'']))]\<close>
    by blast
  have ok: \<open>fst (POST_structured demo_runtime ''{"frames":["data:a"]}'')
              \<noteq> service_failure_response\<close>
    by (simp add: demo_POST_structured_one service_failure_response_def NextResponse_json_def)
  from t ok have
    "\<forall>r \<in> set [\<lparr>frame = Finite 1, gaze = True, confidence = Finite 90\<rparr>,
                \<lparr>frame = Finite 2, gaze = False, confidence = Finite 40\<rparr>].
       isFinite (frame r) \<and> isFinite (confidence r) \<longrightarrow>
       well_formed_entry (JSON_stringify (judgment_json r))"
    by (simp add: demo_generateObject)
  then show ?thesis
    using calls demo_parse_one demo_POST_structured_one by simp
qed

text \<open>
  The claim as first stated bounds the length of the list by the number of frames and
  has every entry well-formed. One frame is sent; the model answers with two judgments,
  the first with the confidence \<^verbatim>\<open>1e400\<close>, which is parsed as infinity, passes
  \<^verbatim>\<open>z.number()\<close> and is serialised as \<^verbatim>\<open>null\<close>. The route returns both with status 200.
\<close>

theorem structured_response_counterexample:
  \<open>JSON_parse overflow_runtime ''{"frames":["data:a"]}'' = Some (frames_body [''data:a'']) \<and>
   fst (POST_structured overflow_runtime ''{"frames":["data:a"]}'') =
     \<lparr>status = 200,
      body = JArr [JObj [(''frame'', JNum (Finite 1)), (''gaze'', JBool True),
                         (''confidence'', JNull)],
                   JObj [(''frame'', JNum (Finite 2)), (''gaze'', JBool False),
                         (''confidence'', JNum (Finite 40))]]\<rparr> \<and>
   \<not> well_formed_entry
       (JObj [(''frame'', JNum (Finite 1)), (''gaze'', JBool True), (''confidence'', JNull)]) \<and>
   \<not> length [JObj [(''frame'', JNum (Finite 1)), (''gaze'', JBool True),
                   (''confidence'', JNull)],
             JObj [(''frame'', JNum (Finite 2)), (''gaze'', JBool False),
                   (''confidence'', JNum (Finite 40))]]
       \<le> length [''data:a'']\<close>
  by (simp add: overflow_parse_one overflow_POST_structured_one well_formed_entry_def)

text \<open>
  Claim C2. When the body parses to a value that can be destructured and its \<^verbatim>\<open>frames\<close>
  is missing (undefined), is not an array, or is the empty array, both routes answer with
  status 400 and the message \<^verbatim>\<open>No frames provided for analysis\<close>, and make no call to the
  language model. (Null is the one JSON value that cannot be destructured.)
\<close>

theorem missing_or_empty_frames_rejected:
  assumes "JSON_parse rt request = Some parsed"
    and "destructure_frames parsed = Inr fr"
    and "fr = None \<or> \<not> Array_isArray fr \<or> fr = Some (JArr [])"
  shows "POST_structured rt request = (no_frames_response, []) \<and>
         POST_text rt request = (no_frames_response, []) \<and>
         status no_frames_response = 400 \<and>
         body no_frames_response = error_body ''No frames provided for analysis''"
proof -
  from assms(3) have guard:
    "\<not> truthy fr \<or> \<not> Array_isArray fr \<or> length (array_elements fr) = 0"
    by auto
  show ?thesis
    using assms(1,2) guard
    by (simp add: POST_structured_def POST_text_def no_frames_response_def NextResponse_json_def)
qed

theorem missing_or_empty_frames_rejected_witness:
  \<open>POST_structured demo_runtime ''{}'' = (no_frames_response, []) \<and>
   POST_text demo_runtime ''{}'' = (no_frames_response, []) \<and>
   POST_structured demo_runtime ''{"frames":"data:a"}'' = (no_frames_response, []) \<and>
   POST_text demo_runtime ''{"frames":"data:a"}'' = (no_frames_response, []) \<and>
   POST_structured demo_runtime ''{"frames":[]}'' = (no_frames_response, []) \<and>
   POST_text demo_runtime ''{"frames":[]}'' = (no_frames_response, [])\<close>
proof -
  have p1: \<open>JSON_parse demo_runtime ''{}'' = Some (JObj [])\<close>
    and p2: \<open>JSON_parse demo_runtime ''{"frames":"data:a"}''
               = Some (JObj [(''frames'', JStr ''data:a'')])\<close>
    and p3: \<open>JSON_parse demo_runtime ''{"frames":[]}'' = Some (frames_body [])\<close>
    by (simp_all add: demo_runtime_def parse_table_def)
  have d1: "destructure_frames (JObj []) = Inr None"
    and d2: "destructure_frames (JObj [(''frames'', JStr ''data:a'')]) = Inr (Some (JStr ''data:a''))"
    and d3: "destructure_frames (frames_body []) = Inr (Some (JArr []))"
    by (simp_all add: frames_body_def)
  show ?thesis
    using missing_or_empty_frames_rejected [OF p1 d1]
      missing_or_empty_frames_rejected [OF p2 d2]
      missing_or_empty_frames_rejected [OF p3 d3]
    by simp
qed

text \<open>
  Claim C3. When the body is not JSON, both routes answer with status 400 and the message
  \<^verbatim>\<open>Invalid request body format\<close>, without calling the model; the response for a missing
  or empty frame list has the same status and another message, so the bodies differ.
\<close>

theorem unparsable_body_distinct_400:
  assumes "JSON_parse rt request = None"
  shows "POST_structured rt request =
           (\<lparr>status = 400, body = JObj [(''error'', JStr ''Invalid request body format'')]\<rparr>, []) \<and>
         POST_text rt request =
           (\<lparr>status = 400, body = JObj [(''error'', JStr ''Invalid request body format'')]\<rparr>, []) \<and>
         no_frames_response =
           \<lparr>status = 400, body = JObj [(''error'', JStr ''No frames provided for analysis'')]\<rparr> \<and>
         body (fst (POST_structured rt request)) \<noteq> body no_frames_response \<and>
         body (fst (POST_text rt request)) \<noteq> body no_frames_response"
  using assms
  by (simp add: POST_structured_def POST_text_def outer_catch_def no_frames_response_def
      NextResponse_json_def error_body_def)

theorem unparsable_body_distinct_400_witness:
  \<open>fst (POST_structured demo_runtime ''{"frames":'') =
     \<lparr>status = 400, body = JObj [(''error'', JStr ''Invalid request body format'')]\<rparr> \<and>
   fst (POST_text demo_runtime ''{"frames":'') =
     \<lparr>status = 400, body = JObj [(''error'', JStr ''Invalid request body format'')]\<rparr>\<close>
proof -
  have p: \<open>JSON_parse demo_runtime ''{"frames":'' = None\<close>
    by (simp add: demo_runtime_def parse_table_def two_judgments_text_def overflow_judgments_text_def)
  show ?thesis
    using unparsable_body_distinct_400 [OF p]
    by simp
qed

text \<open>
  Claim C4. For every list of frame strings, the frames text is the entries of all frames
  joined by blank lines; the entry at index \<open>i\<close> is the text \<^verbatim>\<open>Frame\<close>, the decimal
  numeral of \<open>i + 1\<close>, a colon, a line break and the frame as a Markdown image; it stands
  after the entries of the frames before it and before those of the frames after it. For
  a non-empty list, each route makes one model call, whose prompt is the route's
  instructions followed by this frames text.
\<close>

theorem prompt_lists_frames_in_order:
  "framesContent ns (map JStr fs) = Inr (join ''\<newline>\<newline>'' (labelled_frames fs)) \<and>
   length (labelled_frames fs) = length fs \<and>
   (\<forall>i. i < length fs \<longrightarrow>
      labelled_frames fs ! i = ''Frame '' @ decimal (i + 1) @ '':\<newline>![]('' @ fs ! i @ '')'' \<and>
      digits_value (decimal (i + 1)) = i + 1 \<and>
      join ''\<newline>\<newline>'' (labelled_frames fs) =
        join ''\<newline>\<newline>'' (take i (labelled_frames fs)) @
        (if i = 0 then [] else ''\<newline>\<newline>'') @
        labelled_frames fs ! i @
        (if Suc i = length fs then [] else ''\<newline>\<newline>'') @
        join ''\<newline>\<newline>'' (drop (Suc i) (labelled_frames fs))) \<and>
   (JSON_parse rt request = Some parsed \<and>
    destructure_frames parsed = Inr (Some (JArr (map JStr fs))) \<and> fs \<noteq> [] \<longrightarrow>
      map prompt (snd (POST_structured rt request))
        = [instructions_structured @ join ''\<newline>\<newline>'' (labelled_frames fs)] \<and>
      map prompt (snd (POST_text rt request))
        = [instructions_text @ join ''\<newline>\<newline>'' (labelled_frames fs)])"
proof -
  have len: "length (labelled_frames fs) = length fs"
    by (simp add: labelled_frames_def)
  have entry: "labelled_frames fs ! i
                 = ''Frame '' @ decimal (i + 1) @ '':\<newline>![]('' @ fs ! i @ '')''"
    if "i < length fs" for i
    using that by (simp add: labelled_frames_def frame_entry_def)
  have place: "join ''\<newline>\<newline>'' (labelled_frames fs) =
        join ''\<newline>\<newline>'' (take i (labelled_frames fs)) @
        (if i = 0 then [] else ''\<newline>\<newline>'') @
        labelled_frames fs ! i @
        (if Suc i = length fs then [] else ''\<newline>\<newline>'') @
        join ''\<newline>\<newline>'' (drop (Suc i) (labelled_frames fs))"
    if "i < length fs" for i
    using join_at [of i "labelled_frames fs" "''\<newline>\<newline>''"] that len by simp
  have posts: "map prompt (snd (POST_structured rt request))
        = [instructions_structured @ join ''\<newline>\<newline>'' (labelled_frames fs)] \<and>
      map prompt (snd (POST_text rt request))
        = [instructions_text @ join ''\<newline>\<newline>'' (labelled_frames fs)]"
    if "JSON_parse rt request = Some parsed"
      and "destructure_frames parsed = Inr (Some (JArr (map JStr fs)))" and "fs \<noteq> []"
    using POST_structured_frames [OF that] POST_text_frames [OF that]
    by (simp add: structured_call_def text_call_def split: sum.split)
  show ?thesis
    using len entry place posts framesContent_strings digits_value_decimal by blast
qed

theorem prompt_lists_frames_in_order_witness:
  \<open>labelled_frames [''data:a'', ''data:b''] ! 1 = ''Frame 2:\<newline>![](data:b)'' \<and>
   digits_value (decimal 2) = 2 \<and>
   map prompt (snd (POST_structured demo_runtime ''{"frames":["data:a","data:b"]}''))
     = [instructions_structured @ join ''\<newline>\<newline>'' (labelled_frames [''data:a'', ''data:b''])] \<and>
   map prompt (snd (POST_text demo_runtime ''{"frames":["data:a","data:b"]}''))
     = [instructions_text @ join ''\<newline>\<newline>'' (labelled_frames [''data:a'', ''data:b''])]\<close>
proof -
  have p: \<open>JSON_parse demo_runtime ''{"frames":["data:a","data:b"]}''
             = Some (frames_body [''data:a'', ''data:b''])\<close>
    by (simp add: demo_runtime_def parse_table_def)
  have i: "(1::nat) < length [''data:a'', ''data:b'']"
    by simp
  have ne: "[''data:a'', ''data:b''] \<noteq> []"
    by simp
  have d: "destructure_frames (frames_body [''data:a'', ''data:b''])
             = Inr (Some (JArr (map JStr [''data:a'', ''data:b''])))"
    by (rule destructure_frames_body)
  note t = prompt_lists_frames_in_order
      [of "Number_toString demo_runtime" "[''data:a'', ''data:b'']" demo_runtime
          \<open>''{"frames":["data:a","data:b"]}''\<close> "frames_body [''data:a'', ''data:b'']"]
  from t i have e: "labelled_frames [''data:a'', ''data:b''] ! 1
      = ''Frame '' @ decimal (1 + 1) @ '':\<newline>![]('' @ [''data:a'', ''data:b''] ! 1 @ '')''"
    by blast
  from t i have v: "digits_value (decimal (1 + 1)) = 1 + 1"
    by blast
  from t p d ne have c: \<open>map prompt (snd (POST_structured demo_runtime ''{"frames":["data:a","data:b"]}''))
     = [instructions_structured @ join ''\<newline>\<newline>'' (labelled_frames [''data:a'', ''data:b''])] \<and>
   map prompt (snd (POST_text demo_runtime ''{"frames":["data:a","data:b"]}''))
     = [instructions_text @ join ''\<newline>\<newline>'' (labelled_frames [''data:a'', ''data:b''])]\<close>
    by blast
  show ?thesis
    using e v c by (simp add: decimal_2 digits_value_def)
qed

text \<open>
  Claim C9. There is a valid non-empty frame list and a model that answers every call
  alike for which both routes answer 200 with different bodies. Whenever both routes
  answer 200 for a request, the structured route's body is a list of objects with exactly
  the properties \<^verbatim>\<open>frame\<close>, \<^verbatim>\<open>gaze\<close> (a boolean) and \<^verbatim>\<open>confidence\<close>, none of which has a
  property \<^verbatim>\<open>eyesClosed\<close>, the text route's body is a JSON string, the
  very text the model gave for a prompt that mentions \<^verbatim>\<open>eyesClosed\<close>, and so the two
  bodies differ.
\<close>

theorem proxy_variants_differ:
  "(\<exists>rt request fs.
      JSON_parse rt request = Some (frames_body fs) \<and> fs \<noteq> [] \<and>
      (\<forall>c c'. language_model rt c = language_model rt c') \<and>
      status (fst (POST_structured rt request)) = 200 \<and>
      status (fst (POST_text rt request)) = 200 \<and>
      body (fst (POST_structured rt request)) \<noteq> body (fst (POST_text rt request))) \<and>
   (\<forall>rt request.
      status (fst (POST_structured rt request)) = 200 \<and>
      status (fst (POST_text rt request)) = 200 \<longrightarrow>
      (\<exists>rs. body (fst (POST_structured rt request)) = JArr rs \<and>
            list_all judgment_keyed rs \<and>
            list_all (\<lambda>e. \<not> has_property ''eyesClosed'' e) rs) \<and>
      (\<exists>reply c. body (fst (POST_text rt request)) = JStr reply \<and>
               snd (POST_text rt request) = [c] \<and>
               language_model rt c = Some reply \<and>
               sublist ''eyesClosed'' (prompt c)) \<and>
      body (fst (POST_structured rt request)) \<noteq> body (fst (POST_text rt request)))"
proof (intro conjI allI impI)
  have \<open>JSON_parse demo_runtime ''{"frames":["data:a"]}'' = Some (frames_body [''data:a'']) \<and>
        [''data:a''] \<noteq> [] \<and>
        (\<forall>c c'. language_model demo_runtime c = language_model demo_runtime c') \<and>
        status (fst (POST_structured demo_runtime ''{"frames":["data:a"]}'')) = 200 \<and>
        status (fst (POST_text demo_runtime ''{"frames":["data:a"]}'')) = 200 \<and>
        body (fst (POST_structured demo_runtime ''{"frames":["data:a"]}''))
          \<noteq> body (fst (POST_text demo_runtime ''{"frames":["data:a"]}''))\<close>
    by (simp add: demo_parse_one demo_POST_structured_one demo_POST_text_one)
      (simp add: demo_runtime_def)
  then show "\<exists>rt request fs.
      JSON_parse rt request = Some (frames_body fs) \<and> fs \<noteq> [] \<and>
      (\<forall>c c'. language_model rt c = language_model rt c') \<and>
      status (fst (POST_structured rt request)) = 200 \<and>
      status (fst (POST_text rt request)) = 200 \<and>
      body (fst (POST_structured rt request)) \<noteq> body (fst (POST_text rt request))"
    by blast
next
  fix rt request
  assume ok: "status (fst (POST_structured rt request)) = 200 \<and>
              status (fst (POST_text rt request)) = 200"
  from ok obtain results where
    s: "body (fst (POST_structured rt request))
          = JArr (map (\<lambda>r. JSON_stringify (judgment_json r)) results)"
    using POST_structured_200 by blast
  from ok obtain content reply where
    t: "POST_text rt request = (\<lparr>status = 200, body = JStr reply\<rparr>, [text_call content])"
      "language_model rt (text_call content) = Some reply"
    using POST_text_200 by blast
  show "\<exists>rs. body (fst (POST_structured rt request)) = JArr rs \<and>
            list_all judgment_keyed rs \<and>
            list_all (\<lambda>e. \<not> has_property ''eyesClosed'' e) rs"
    using s by (simp add: list_all_iff judgment_json_keyed judgment_json_no_eyesClosed)
  show "\<exists>reply c. body (fst (POST_text rt request)) = JStr reply \<and>
               snd (POST_text rt request) = [c] \<and>
               language_model rt c = Some reply \<and>
               sublist ''eyesClosed'' (prompt c)"
    using t text_prompt_mentions_eyesClosed by simp
  show "body (fst (POST_structured rt request)) \<noteq> body (fst (POST_text rt request))"
    using s t by simp
qed

theorem proxy_variants_differ_witness:
  \<open>status (fst (POST_structured demo_runtime ''{"frames":["data:a"]}'')) = 200 \<and>
   status (fst (POST_text demo_runtime ''{"frames":["data:a"]}'')) = 200 \<and>
   body (fst (POST_structured demo_runtime ''{"frames":["data:a"]}''))
     \<noteq> body (fst (POST_text demo_runtime ''{"frames":["data:a"]}''))\<close>
proof -
  have ok: \<open>status (fst (POST_structured demo_runtime ''{"frames":["data:a"]}'')) = 200 \<and>
            status (fst (POST_text demo_runtime ''{"frames":["data:a"]}'')) = 200\<close>
    by (simp add: demo_POST_structured_one demo_POST_text_one)
  from proxy_variants_differ have
    \<open>status (fst (POST_structured demo_runtime ''{"frames":["data:a"]}'')) = 200 \<and>
     status (fst (POST_text demo_runtime ''{"frames":["data:a"]}'')) = 200 \<longrightarrow>
     body (fst (POST_structured demo_runtime ''{"frames":["data:a"]}''))
       \<noteq> body (fst (POST_text demo_runtime ''{"frames":["data:a"]}''))\<close>
    by blast
  with ok show ?thesis
    by blast
qed

text \<open>
  Claim C10. When the body is the JSON literal null, destructuring throws a
  \<^verbatim>\<open>TypeError\<close>, which the outer \<^verbatim>\<open>catch\<close> does not take for a \<^verbatim>\<open>SyntaxError\<close>: both routes
  answer with status 500 and the message \<^verbatim>\<open>Failed to analyze frames\<close>, not with a 400.
\<close>

theorem null_body_is_500:
  assumes "JSON_parse rt request = Some JNull"
  shows "POST_structured rt request =
           (\<lparr>status = 500, body = JObj [(''error'', JStr ''Failed to analyze frames'')]\<rparr>, []) \<and>
         POST_text rt request =
           (\<lparr>status = 500, body = JObj [(''error'', JStr ''Failed to analyze frames'')]\<rparr>, []) \<and>
         destructure_frames JNull = Inl TypeError \<and>
         outer_catch TypeError \<noteq> outer_catch SyntaxError \<and>
         status (outer_catch SyntaxError) = 400"
  using assms
  by (simp add: POST_structured_def POST_text_def outer_catch_def NextResponse_json_def
      error_body_def)

theorem null_body_is_500_witness:
  "fst (POST_structured demo_runtime ''null'') =
     \<lparr>status = 500, body = JObj [(''error'', JStr ''Failed to analyze frames'')]\<rparr> \<and>
   fst (POST_text demo_runtime ''null'') =
     \<lparr>status = 500, body = JObj [(''error'', JStr ''Failed to analyze frames'')]\<rparr>"
proof -
  have p: "JSON_parse demo_runtime ''null'' = Some JNull"
    by (simp add: demo_runtime_def parse_table_def)
  show ?thesis
    using null_body_is_500 [OF p]
    by simp
qed

section \<open>Properties of the session state\<close>



text \<open>
  Claim C8. For every result list shown by the results view, the on-screen count plus the
  off-screen count is the number of entries, and neither count is negative; so four
  results give counts that sum to four.
\<close>

theorem counts_sum_to_total:
  "onScreenCount rs + offScreenCount rs = int (length rs) \<and>
   0 \<le> onScreenCount rs \<and> 0 \<le> offScreenCount rs \<and>
   (length rs = 4 \<longrightarrow> onScreenCount rs + offScreenCount rs = 4)"
  by (simp add: onScreenCount_def offScreenCount_def)

theorem counts_sum_to_total_witness:
  "onScreenCount
     [\<lparr>frame = Finite 1, gaze = True, confidence = Finite 90, eyesClosed = False\<rparr>,
      \<lparr>frame = Finite 2, gaze = False, confidence = Finite 80, eyesClosed = True\<rparr>,
      \<lparr>frame = Finite 3, gaze = True, confidence = Finite 75, eyesClosed = False\<rparr>,
      \<lparr>frame = Finite 4, gaze = False, confidence = Finite 60, eyesClosed = False\<rparr>]
   + offScreenCount
     [\<lparr>frame = Finite 1, gaze = True, confidence = Finite 90, eyesClosed = False\<rparr>,
      \<lparr>frame = Finite 2, gaze = False, confidence = Finite 80, eyesClosed = True\<rparr>,
      \<lparr>frame = Finite 3, gaze = True, confidence = Finite 75, eyesClosed = False\<rparr>,
      \<lparr>frame = Finite 4, gaze = False, confidence = Finite 60, eyesClosed = False\<rparr>] = 4"
  using counts_sum_to_total
    [of "[\<lparr>frame = Finite 1, gaze = True, confidence = Finite 90, eyesClosed = False\<rparr>,
          \<lparr>frame = Finite 2, gaze = False, confidence = Finite 80, eyesClosed = True\<rparr>,
          \<lparr>frame = Finite 3, gaze = True, confidence = Finite 75, eyesClosed = False\<rparr>,
          \<lparr>frame = Finite 4, gaze = False, confidence = Finite 60, eyesClosed = False\<rparr>]"]
  by simp

section \<open>Properties of the capture pipeline\<close>

subsection \<open>The invariant and the count of timer firings\<close>

lemma capture_inv_start:
  assumes "0 < F" and "getUserMedia env = Inr ts" and "recorder_accepts env"
  shows "capture_inv D F (startRecording D F env u)"
  using assms by (simp add: capture_inv_def startRecording_def)

lemma stop_pending_bound:
  assumes "capture_inv D F s" and "earliest s t" and "grabber s \<noteq> None \<or> countdownTimer s \<noteq> None"
  shows "stopTimer s = Some (D * 1000) \<and> t \<le> D * 1000"
proof -
  from assms(1,3) obtain d where d: "stopTimer s = Some d"
    by (cases "stopTimer s") (auto simp: capture_inv_def)
  with assms(1) have "d = D * 1000"
    by (simp add: capture_inv_def)
  moreover from assms(2) d have "t \<le> d"
    by (simp add: earliest_def not_before_def)
  ultimately show ?thesis
    using d by simp
qed

lemma capture_inv_grabber:
  assumes "capture_inv D F s"
  shows "capture_inv D F (fire D F (GrabberTick ready result) s)"
proof (cases "grabber s")
  case None
  then show ?thesis using assms by simp
next
  case (Some t)
  show ?thesis
  proof (cases "earliest s t")
    case False
    then show ?thesis using assms Some by simp
  next
    case True
    with assms Some have "stopTimer s = Some (D * 1000) \<and> t \<le> D * 1000"
      using stop_pending_bound by simp
    then show ?thesis
      using assms Some True
      by (auto simp: capture_inv_def grabber_tick_def Let_def all_stopped_def
          split: option.splits)
  qed
qed

lemma capture_inv_countdown:
  assumes "capture_inv D F s"
  shows "capture_inv D F (fire D F CountdownTick s)"
proof (cases "countdownTimer s")
  case None
  then show ?thesis using assms by simp
next
  case (Some t)
  show ?thesis
  proof (cases "earliest s t")
    case False
    then show ?thesis using assms Some by simp
  next
    case True
    with assms Some have "stopTimer s = Some (D * 1000) \<and> t \<le> D * 1000"
      using stop_pending_bound by simp
    then show ?thesis
      using assms Some True
      by (auto simp: capture_inv_def countdown_tick_def Let_def all_stopped_def
          split: option.splits)
  qed
qed

lemma all_stopped_tracks: "list_all (\<lambda>t. readyState t = Ended) (map stop_track ts)"
  by (simp add: list_all_iff stop_track_def)

lemma capture_inv_stop:
  assumes "capture_inv D F s"
  shows "capture_inv D F (fire D F StopTimeout s)"
proof (cases "stopTimer s")
  case None
  then show ?thesis using assms by simp
next
  case (Some t)
  show ?thesis
  proof (cases "earliest s t")
    case False
    then show ?thesis using assms Some by simp
  next
    case True
    then show ?thesis
      using assms Some
      by (auto simp: capture_inv_def stop_timeout_def Let_def all_stopped_def
          all_stopped_tracks split: option.splits)
  qed
qed

lemma capture_inv_other:
  assumes "capture_inv D F s"
  shows "capture_inv D F (fire D F RecorderHalted s)"
    and "capture_inv D F (fire D F (OnStop url) s)"
  using assms
  by (auto simp: capture_inv_def all_stopped_def split: option.splits)

lemma capture_inv_fire:
  assumes "capture_inv D F s"
  shows "capture_inv D F (fire D F e s)"
  using assms capture_inv_grabber capture_inv_countdown capture_inv_stop capture_inv_other
  by (cases e) blast+

lemma capture_inv_run:
  assumes "capture_inv D F s"
  shows "capture_inv D F (run D F evs s)"
  using assms
  by (induction evs arbitrary: s) (simp_all add: capture_inv_fire)

text \<open>A tick whose capture fails counts against the budget and adds no frame.\<close>

lemma failed_capture_counts:
  assumes "capture_inv D F s" and "timer_enabled (GrabberTick True None) s"
  shows "captures (fire D F (GrabberTick True None) s) = captures s + 1 \<and>
         frames (fire D F (GrabberTick True None) s) = frames s"
proof -
  from assms(2) obtain t where t: "grabber s = Some t" "earliest s t"
    by (cases "grabber s") simp_all
  with assms(1) have "stopTimer s = Some (D * 1000)"
    using stop_pending_bound by simp
  with assms(1) have "streamRef s"
    by (simp add: capture_inv_def)
  then show ?thesis
    using t by (simp add: grabber_tick_def Let_def)
qed

text \<open>While the stop timer is pending, some timer can fire.\<close>

lemma min_timer:
  fixes a b :: "nat option"
  shows "\<exists>t. (a = Some t \<or> b = Some t \<or> t = d) \<and> not_before t a \<and> not_before t b \<and> t \<le> d"
proof -
  define t where
    "t = (case a of
            None \<Rightarrow> (case b of None \<Rightarrow> d | Some y \<Rightarrow> min y d)
          | Some x \<Rightarrow> (case b of None \<Rightarrow> min x d | Some y \<Rightarrow> min x (min y d)))"
  have "(a = Some t \<or> b = Some t \<or> t = d) \<and> not_before t a \<and> not_before t b \<and> t \<le> d"
    by (cases a; cases b) (auto simp: t_def not_before_def min_def)
  then show ?thesis ..
qed

lemma progress:
  assumes "stopTimer s = Some d"
  shows "\<exists>e. timer_enabled e s"
proof -
  obtain t where t: "grabber s = Some t \<or> countdownTimer s = Some t \<or> t = d"
    "not_before t (grabber s)" "not_before t (countdownTimer s)" "t \<le> d"
    using min_timer [of "grabber s" "countdownTimer s" d] by blast
  then have e: "earliest s t"
    using assms by (simp add: earliest_def not_before_def)
  from t(1) consider "grabber s = Some t" | "countdownTimer s = Some t" | "t = d"
    by blast
  then show ?thesis
  proof cases
    case 1
    with e have "timer_enabled (GrabberTick True None) s" by simp
    then show ?thesis ..
  next
    case 2
    with e have "timer_enabled CountdownTick s" by simp
    then show ?thesis ..
  next
    case 3
    with e assms have "timer_enabled StopTimeout s" by simp
    then show ?thesis ..
  qed
qed


lemma firings_left_first:
  assumes "0 < p"
  shows "firings_left dl p (Some p) = dl div p"
proof (cases "p \<le> dl")
  case True
  then have "dl div p = Suc ((dl - p) div p)"
    using assms by (rule_tac le_div_geq)
  with True show ?thesis
    by (simp add: firings_left_def)
next
  case False
  then show ?thesis
    by (simp add: firings_left_def)
qed

lemma firings_left_step:
  assumes "0 < p" and "t \<le> dl"
  shows "firings_left dl p (Some (t + p)) < firings_left dl p (Some t)"
proof (cases "t + p \<le> dl")
  case True
  define q where "q = (dl - (t + p)) div p"
  have later: "firings_left dl p (Some (t + p)) = q + 1"
    using True by (simp add: firings_left_def q_def)
  have "p \<le> dl - t"
    using True by arith
  then have "(dl - t) div p = Suc ((dl - t - p) div p)"
    using assms(1) by (rule_tac le_div_geq)
  moreover have "dl - t - p = dl - (t + p)"
    by arith
  ultimately have "(dl - t) div p = Suc q"
    by (simp only: q_def)
  then have "firings_left dl p (Some t) = Suc q + 1"
    using assms(2) by (simp add: firings_left_def)
  with later show ?thesis
    by arith
next
  case False
  then have "firings_left dl p (Some (t + p)) = 0"
    by (simp add: firings_left_def)
  moreover have "0 < firings_left dl p (Some t)"
    using assms(2) by (simp add: firings_left_def)
  ultimately show ?thesis
    by arith
qed

lemma firings_left_cleared:
  assumes "t \<le> dl"
  shows "firings_left dl p None < firings_left dl p (Some t)"
  using assms by (simp add: firings_left_def)

lemma remaining_grabber:
  assumes "capture_inv D F s" and "0 < intervalMs D F"
    and "timer_enabled (GrabberTick ready result) s"
  shows "remaining D F (fire D F (GrabberTick ready result) s) < remaining D F s"
proof -
  from assms(3) obtain t where t: "grabber s = Some t" "earliest s t"
    by (cases "grabber s") simp_all
  with assms(1) have le: "t \<le> D * 1000"
    using stop_pending_bound by simp
  define s' where "s' = fire D F (GrabberTick ready result) s"
  have same: "countdownTimer s' = countdownTimer s" "stopTimer s' = stopTimer s"
    using t by (simp_all add: s'_def grabber_tick_def Let_def split: option.splits)
  have "grabber s' = Some (t + intervalMs D F) \<or> grabber s' = None"
    using t by (simp add: s'_def grabber_tick_def Let_def split: option.splits)
  then have "firings_left (D * 1000) (intervalMs D F) (grabber s')
               < firings_left (D * 1000) (intervalMs D F) (grabber s)"
    using firings_left_step [OF assms(2) le] firings_left_cleared [OF le] t(1) by auto
  then have "remaining D F s' < remaining D F s"
    using same by (simp add: remaining_def)
  then show ?thesis
    by (simp only: s'_def)
qed

lemma remaining_countdown:
  assumes "capture_inv D F s" and "timer_enabled CountdownTick s"
  shows "remaining D F (fire D F CountdownTick s) < remaining D F s"
proof -
  from assms(2) obtain t where t: "countdownTimer s = Some t" "earliest s t"
    by (cases "countdownTimer s") simp_all
  with assms(1) have le: "t \<le> D * 1000"
    using stop_pending_bound by simp
  define s' where "s' = fire D F CountdownTick s"
  have same: "grabber s' = grabber s" "stopTimer s' = stopTimer s"
    using t by (simp_all add: s'_def countdown_tick_def Let_def)
  have "countdownTimer s' = Some (t + 1000) \<or> countdownTimer s' = None"
    using t by (simp add: s'_def countdown_tick_def Let_def)
  then have "firings_left (D * 1000) 1000 (countdownTimer s')
               < firings_left (D * 1000) 1000 (countdownTimer s)"
    using firings_left_step [of 1000 t "D * 1000"] firings_left_cleared [OF le] le t(1) by auto
  then have "remaining D F s' < remaining D F s"
    using same by (simp add: remaining_def)
  then show ?thesis
    by (simp only: s'_def)
qed

lemma remaining_stop:
  assumes "timer_enabled StopTimeout s"
  shows "remaining D F (fire D F StopTimeout s) < remaining D F s"
proof -
  from assms obtain t where t: "stopTimer s = Some t" "earliest s t"
    by (cases "stopTimer s") simp_all
  define s' where "s' = fire D F StopTimeout s"
  have "grabber s' = None" "countdownTimer s' = None" "stopTimer s' = None"
    using t by (simp_all add: s'_def stop_timeout_def Let_def split: option.splits)
  then have "remaining D F s' < remaining D F s"
    using t(1) by (simp add: remaining_def firings_left_def)
  then show ?thesis
    by (simp only: s'_def)
qed

lemma remaining_decreases:
  assumes "capture_inv D F s" and "0 < intervalMs D F" and "timer_enabled e s"
  shows "remaining D F (fire D F e s) < remaining D F s"
proof (cases e)
  case (GrabberTick ready result)
  then show ?thesis
    using assms remaining_grabber by blast
next
  case CountdownTick
  then show ?thesis
    using assms remaining_countdown by blast
next
  case StopTimeout
  then show ?thesis
    using assms remaining_stop by blast
next
  case RecorderHalted
  then show ?thesis
    using assms(3) by simp
next
  case (OnStop url)
  then show ?thesis
    using assms(3) by simp
qed

lemma firings_bounded:
  assumes "capture_inv D F s" and "0 < intervalMs D F" and "firings D F evs s"
  shows "length evs \<le> remaining D F s"
  using assms
proof (induction evs arbitrary: s)
  case Nil
  show ?case by simp
next
  case (Cons e es)
  from Cons.prems have en: "timer_enabled e s" and rest: "firings D F es (fire D F e s)"
    by simp_all
  have "length es \<le> remaining D F (fire D F e s)"
    using Cons.IH [OF capture_inv_fire [OF Cons.prems(1)] Cons.prems(2) rest] .
  moreover have "remaining D F (fire D F e s) < remaining D F s"
    using remaining_decreases [OF Cons.prems(1,2) en] .
  ultimately show ?case
    by simp
qed

lemma remaining_start:
  assumes "0 < intervalMs D F" and "getUserMedia env = Inr ts" and "recorder_accepts env"
  shows "remaining D F (startRecording D F env u) = (D * 1000) div intervalMs D F + D + 1"
proof -
  define s where "s = startRecording D F env u"
  have timers: "grabber s = Some (intervalMs D F)" "countdownTimer s = Some 1000"
    "stopTimer s = Some (D * 1000)"
    using assms(2,3) by (simp_all add: s_def startRecording_def)
  have g: "firings_left (D * 1000) (intervalMs D F) (Some (intervalMs D F))
          = (D * 1000) div intervalMs D F"
    using assms(1) by (rule firings_left_first)
  have "firings_left (D * 1000) 1000 (Some 1000) = (D * 1000) div 1000"
    by (rule firings_left_first) simp
  then have c: "firings_left (D * 1000) 1000 (Some 1000) = D"
    by simp
  have "remaining D F s = (D * 1000) div intervalMs D F + D + 1"
    unfolding remaining_def timers g c by simp
  then show ?thesis
    by (simp only: s_def)
qed

lemma demo_start:
  "startRecording RECORDING_DURATION FRAME_COUNT demo_env initial_ui =
     \<lparr>now = 0, frames = [], captures = 0, grabber = Some 500, countdownTimer = Some 1000,
      stopTimer = Some 2000, currentCount = 2, mediaRecorder = Some Recording,
      onstop_pending = False, stream_tracks = [\<lparr>kind = ''video'', readyState = Live\<rparr>],
      streamRef = True,
      ui = \<lparr>recording = True, count = 2, videoURL = None, loading = False,
            capturedFrames = [], analysisResults = None\<rparr>,
      toasts = []\<rparr>"
  by (simp add: startRecording_def RECORDING_DURATION_def FRAME_COUNT_def demo_env_def
      initial_ui_def intervalMs_def)

lemma demo_firings:
  "firings RECORDING_DURATION FRAME_COUNT demo_events
     (startRecording RECORDING_DURATION FRAME_COUNT demo_env initial_ui)"
  unfolding demo_start
  by (simp add: demo_events_def RECORDING_DURATION_def FRAME_COUNT_def intervalMs_def
      earliest_def not_before_def grabber_tick_def countdown_tick_def Let_def)

lemma demo_first_tick:
  "timer_enabled (GrabberTick True None)
     (run RECORDING_DURATION FRAME_COUNT [GrabberTick True (Some ''data:a'')]
        (startRecording RECORDING_DURATION FRAME_COUNT demo_env initial_ui))"
  unfolding demo_start
  by (simp add: RECORDING_DURATION_def FRAME_COUNT_def intervalMs_def
      earliest_def not_before_def grabber_tick_def Let_def)

lemma demo_stopped:
  "stopTimer (run RECORDING_DURATION FRAME_COUNT demo_events
     (startRecording RECORDING_DURATION FRAME_COUNT demo_env initial_ui)) = None"
  unfolding demo_start
  by (simp add: demo_events_def RECORDING_DURATION_def FRAME_COUNT_def intervalMs_def
      earliest_def not_before_def grabber_tick_def countdown_tick_def stop_timeout_def Let_def)

subsection \<open>The claim about capture\<close>

text \<open>
  Claim C5. Take a recording that has started (the camera stream was granted and the
  recorder accepted it) with duration \<open>D\<close> and frame count \<open>F\<close>, \<open>F\<close> positive, and any
  sequence of events after it. At most \<open>F\<close> frames are sampled and at most \<open>F\<close> capture
  attempts are counted; a grabber tick whose capture fails adds one to the attempts and
  no frame, so it uses up its share and is not retried. While the stop timeout is pending
  it is due at \<open>D * 1000\<close> ms, the clock has not passed that instant, and some timer can
  fire; once it has fired, the clock reads \<open>D * 1000\<close> ms, the recorder is inactive, every
  track of the stream is ended, both intervals are cleared and the sampled frames are
  published, whatever the captures gave. When the grabber's period is positive the timers
  fire at most \<open>D * 1000 div period + D + 1\<close> times in all, so the stop is reached after
  boundedly many firings. Time is the virtual clock of the timers.
\<close>

theorem capture_bounded_and_stopped:
  assumes "0 < F" and "getUserMedia env = Inr ts" and "recorder_accepts env"
  shows "(let s = run D F evs (startRecording D F env u) in
           length (frames s) \<le> F \<and> captures s \<le> F \<and>
           length (capturedFrames (ui s)) \<le> F \<and>
           (timer_enabled (GrabberTick True None) s \<longrightarrow>
              captures (fire D F (GrabberTick True None) s) = captures s + 1 \<and>
              frames (fire D F (GrabberTick True None) s) = frames s) \<and>
           (stopTimer s = None \<or>
            stopTimer s = Some (D * 1000) \<and> now s \<le> D * 1000 \<and> (\<exists>e. timer_enabled e s)) \<and>
           (stopTimer s = None \<longrightarrow>
              now s = D * 1000 \<and> all_stopped s \<and> grabber s = None \<and>
              countdownTimer s = None \<and> capturedFrames (ui s) = frames s \<and>
              \<not> recording (ui s))) \<and>
         (0 < intervalMs D F \<and> firings D F evs (startRecording D F env u) \<longrightarrow>
            length evs \<le> (D * 1000) div intervalMs D F + D + 1)"
proof -
  define s where "s = run D F evs (startRecording D F env u)"
  have inv0: "capture_inv D F (startRecording D F env u)"
    using assms by (rule capture_inv_start)
  then have inv: "capture_inv D F s"
    unfolding s_def by (rule capture_inv_run)
  have bounds: "length (frames s) \<le> F" "captures s \<le> F" "length (capturedFrames (ui s)) \<le> F"
    using inv by (simp_all add: capture_inv_def)
  have failed: "captures (fire D F (GrabberTick True None) s) = captures s + 1 \<and>
                frames (fire D F (GrabberTick True None) s) = frames s"
    if "timer_enabled (GrabberTick True None) s"
    using failed_capture_counts [OF inv that] .
  have pending: "stopTimer s = None \<or>
      stopTimer s = Some (D * 1000) \<and> now s \<le> D * 1000 \<and> (\<exists>e. timer_enabled e s)"
  proof (cases "stopTimer s")
    case None
    then show ?thesis by simp
  next
    case (Some d)
    then have "d = D * 1000 \<and> now s \<le> D * 1000"
      using inv by (simp add: capture_inv_def)
    moreover have "\<exists>e. timer_enabled e s"
      using Some by (rule progress)
    ultimately show ?thesis
      using Some by simp
  qed
  have stopped: "now s = D * 1000 \<and> all_stopped s \<and> grabber s = None \<and>
      countdownTimer s = None \<and> capturedFrames (ui s) = frames s \<and> \<not> recording (ui s)"
    if "stopTimer s = None"
    using inv that by (simp add: capture_inv_def)
  have count: "length evs \<le> (D * 1000) div intervalMs D F + D + 1"
    if "0 < intervalMs D F" and "firings D F evs (startRecording D F env u)"
    using firings_bounded [OF inv0 that] remaining_start [OF that(1) assms(2,3)] by simp
  show ?thesis
    using bounds failed pending stopped count
    unfolding Let_def s_def [symmetric] by blast
qed

theorem capture_bounded_and_stopped_witness:
  "all_stopped (run RECORDING_DURATION FRAME_COUNT demo_events
     (startRecording RECORDING_DURATION FRAME_COUNT demo_env initial_ui)) \<and>
   now (run RECORDING_DURATION FRAME_COUNT demo_events
     (startRecording RECORDING_DURATION FRAME_COUNT demo_env initial_ui))
     = RECORDING_DURATION * 1000 \<and>
   length demo_events
     \<le> (RECORDING_DURATION * 1000) div intervalMs RECORDING_DURATION FRAME_COUNT
       + RECORDING_DURATION + 1 \<and>
   captures (fire RECORDING_DURATION FRAME_COUNT (GrabberTick True None)
      (run RECORDING_DURATION FRAME_COUNT [GrabberTick True (Some ''data:a'')]
        (startRecording RECORDING_DURATION FRAME_COUNT demo_env initial_ui)))
     = captures (run RECORDING_DURATION FRAME_COUNT [GrabberTick True (Some ''data:a'')]
        (startRecording RECORDING_DURATION FRAME_COUNT demo_env initial_ui)) + 1"
proof -
  have F: "0 < FRAME_COUNT"
    by (simp add: FRAME_COUNT_def)
  have g: "getUserMedia demo_env = Inr [\<lparr>kind = ''video'', readyState = Live\<rparr>]"
    and r: "recorder_accepts demo_env"
    by (simp_all add: demo_env_def)
  have p: "0 < intervalMs RECORDING_DURATION FRAME_COUNT"
    by (simp add: intervalMs_def RECORDING_DURATION_def FRAME_COUNT_def)
  note whole = capture_bounded_and_stopped
    [OF F g r, of RECORDING_DURATION demo_events initial_ui]
  note first = capture_bounded_and_stopped
    [OF F g r, of RECORDING_DURATION "[GrabberTick True (Some ''data:a'')]" initial_ui]
  show ?thesis
    using whole first p demo_firings demo_first_tick demo_stopped
    unfolding Let_def by blast
qed

section \<open>Properties of the fallback extraction\<close>

subsection \<open>Seeking, playing, and the causes of rejection\<close>

lemma extract_run_append:
  "extract_run F (xs @ ys) s = extract_run F ys (extract_run F xs s)"
  by (induction xs arbitrary: s) simp_all

lemma drawn_snoc: "drawn (rs @ [r]) = drawn rs @ (case r of None \<Rightarrow> [] | Some u \<Rightarrow> [u])"
  by (induction rs rule: drawn.induct) (simp_all split: option.splits)

lemma length_drawn: "length (drawn rs) \<le> length rs"
  by (induction rs rule: drawn.induct) simp_all

lemma valid_duration: "invalid_duration dur \<longleftrightarrow> \<not> (\<exists>d. dur = Finite d \<and> 0 < d)"
  by (cases dur) (auto simp: invalid_duration_def)

lemma next_position_before_end:
  fixes d :: rat
  assumes "0 < d" and "k < F"
  shows "of_nat k * (d / of_nat F) < d"
proof -
  have F: "(0::rat) < of_nat F"
    using assms(2) by simp
  have "(of_nat k :: rat) < of_nat F"
    using assms(2) by simp
  then have "of_nat k * d < of_nat F * d"
    using assms(1) by simp
  then have "of_nat k * d / of_nat F < d"
    using F by (simp add: pos_divide_less_eq mult.commute)
  then show ?thesis
    by simp
qed

lemma next_position_not_before_end:
  fixes d :: rat
  assumes "0 < d" and "0 < F" and "F \<le> k"
  shows "\<not> of_nat k * (d / of_nat F) < d"
proof -
  have F: "(0::rat) < of_nat F"
    using assms(2) by simp
  have "(of_nat F :: rat) \<le> of_nat k"
    using assms(3) by simp
  then have "of_nat F * d \<le> of_nat k * d"
    using assms(1) by simp
  then have "d \<le> of_nat k * d / of_nat F"
    using F by (simp add: pos_le_divide_eq mult.commute)
  then show ?thesis
    by simp
qed

lemma seek_start:
  assumes "0 < d" and "0 < F"
  shows "handle F (LoadedMetadata (Finite d) t) (extractFramesFromVideo url F True)
           = seek_state url F d 0 []"
  using assms
  by (simp add: extractFramesFromVideo_def on_loadedmetadata_def captureFramesOverTime_def invalid_duration_def
      seek_state_def seek_positions_def Let_def)

lemma seek_step:
  assumes "0 < d" and "k < F"
  shows "handle F (Seeked r) (seek_state url F d k rs) = seek_state url F d (Suc k) (rs @ [r])"
proof (cases "Suc k < F")
  case True
  then have "of_nat (Suc k) * (d / of_nat F) < d"
    using assms(1) by (rule_tac next_position_before_end)
  then show ?thesis
    using assms True
    by (cases r)
      (simp_all add: seek_state_def captureVideoFrame_def Let_def drawn_snoc
        seek_positions_def)
next
  case False
  with assms have "Suc k = F"
    by simp
  then show ?thesis
    using assms
    by (cases r)
      (simp_all add: seek_state_def captureVideoFrame_def Let_def drawn_snoc resolve_def
        cleanup_def seek_positions_def)
qed

lemma seek_run:
  assumes "0 < d" and "length rs \<le> F"
  shows "extract_run F (map Seeked rs) (seek_state url F d 0 [])
           = seek_state url F d (length rs) rs"
  using assms(2)
proof (induction rs rule: rev_induct)
  case Nil
  show ?case by simp
next
  case (snoc r rs)
  then have "length rs < F"
    by simp
  then have "handle F (Seeked r) (seek_state url F d (length rs) rs)
               = seek_state url F d (Suc (length rs)) (rs @ [r])"
    using assms(1) by (rule_tac seek_step)
  then show ?case
    using snoc by (simp add: extract_run_append del: handle.simps)
qed

lemma seek_extraction:
  assumes "0 < d" and "0 < F" and "length rs = F"
  shows "extract_run F (LoadedMetadata (Finite d) t # map Seeked rs)
           (extractFramesFromVideo url F True) = seek_state url F d F rs"
  using assms seek_start [OF assms(1,2)] seek_run [OF assms(1), of rs F url]
  by simp


lemma play_start:
  assumes "invalid_duration dur"
  shows "play_inv F t (handle F (LoadedMetadata dur t) (extractFramesFromVideo url F True))"
  using assms
  by (simp add: extractFramesFromVideo_def on_loadedmetadata_def captureFramesOverTime_def play_inv_def Let_def)

lemma play_inv_settle:
  assumes "play_inv F t0 s"
  shows "play_inv F t0 (reject msg s)" and "play_inv F t0 (resolve (cleanup s))"
  using assms
  by (auto simp: play_inv_def reject_def resolve_def cleanup_def split: promise_state.splits)

lemma play_inv_tick:
  assumes "play_inv F t0 s"
  shows "play_inv F t0 (capture_interval_tick F t r s)"
proof (cases "framesCaptured s \<ge> F \<or> t - startTime s \<ge> totalDuration")
  case True
  have "play_inv F t0 (s\<lparr>capture_intervals := capture_intervals s - 1\<rparr>)"
    using assms by (simp add: play_inv_def)
  then have "play_inv F t0 (resolve (cleanup (s\<lparr>capture_intervals := capture_intervals s - 1\<rparr>)))"
    by (rule play_inv_settle)
  then show ?thesis
    using True by (simp add: capture_interval_tick_def Let_def)
next
  case False
  then show ?thesis
    using assms
    by (cases r) (auto simp: capture_interval_tick_def Let_def play_inv_def)
qed

lemma play_inv_handle:
  assumes "play_inv F t0 s"
  shows "play_inv F t0 (handle F e s)"
proof (cases e)
  case VideoError
  then show ?thesis
    using assms play_inv_settle(1) by simp
next
  case (LoadedMetadata d t)
  then show ?thesis
    using assms by (simp add: play_inv_def)
next
  case (Seeked r)
  then show ?thesis
    using assms by (simp add: play_inv_def)
next
  case PlayStarted
  then show ?thesis
    using assms by (simp add: play_inv_def)
next
  case (PlayRejected msg)
  then show ?thesis
    using assms play_inv_settle(1) by simp
next
  case (IntervalTick t r)
  then show ?thesis
    using assms play_inv_tick by simp
qed

lemma play_inv_run:
  assumes "play_inv F t0 s"
  shows "play_inv F t0 (extract_run F evs s)"
  using assms
  by (induction evs arbitrary: s) (simp_all add: play_inv_handle del: handle.simps)

lemma window_closed:
  assumes "play_inv F t0 s" and "0 < capture_intervals s"
    and "F \<le> length (frames_ex s) \<or> totalDuration \<le> t - t0"
  shows "frames_ex (handle F (IntervalTick t r) s) = frames_ex s \<and>
         promise (handle F (IntervalTick t r) s)
           = (if promise s = Pending then Resolved (frames_ex s) else promise s)"
  using assms
  by (auto simp: play_inv_def capture_interval_tick_def Let_def resolve_def cleanup_def)

lemma window_open:
  assumes "play_inv F t0 s" and "0 < capture_intervals s"
    and "length (frames_ex s) < F" and "t - t0 < totalDuration"
  shows "frames_ex (handle F (IntervalTick t (Some u)) s) = frames_ex s @ [u] \<and>
         frames_ex (handle F (IntervalTick t None) s) = frames_ex s \<and>
         promise (handle F (IntervalTick t (Some u)) s) = promise s"
  using assms
  by (simp add: play_inv_def capture_interval_tick_def Let_def)

lemma rejected_by_event:
  assumes "promise (handle F e s) = Rejected msg"
  shows "promise s = Rejected msg \<or> (e = VideoError \<and> msg = ''Video loading failed'') \<or>
         e = PlayRejected msg"
proof (cases e)
  case VideoError
  then show ?thesis
    using assms by (auto simp: reject_def split: if_splits)
next
  case (LoadedMetadata d t)
  then show ?thesis
    using assms by (auto simp: on_loadedmetadata_def captureFramesOverTime_def Let_def split: if_splits)
next
  case (Seeked r)
  then show ?thesis
    using assms
    by (auto simp: captureVideoFrame_def Let_def resolve_def cleanup_def
        split: if_splits option.splits js_number.splits)
next
  case PlayStarted
  then show ?thesis
    using assms by (auto split: if_splits)
next
  case (PlayRejected m)
  then show ?thesis
    using assms by (auto simp: reject_def split: if_splits)
next
  case (IntervalTick t r)
  then show ?thesis
    using assms
    by (auto simp: capture_interval_tick_def Let_def resolve_def cleanup_def
        split: if_splits option.splits)
qed

lemma rejected_by_run:
  assumes "promise (extract_run F evs s) = Rejected msg"
  shows "promise s = Rejected msg \<or> (VideoError \<in> set evs \<and> msg = ''Video loading failed'') \<or>
         PlayRejected msg \<in> set evs"
  using assms
proof (induction evs arbitrary: s)
  case Nil
  then show ?case by simp
next
  case (Cons e es)
  from Cons.prems have "promise (extract_run F es (handle F e s)) = Rejected msg"
    by simp
  from Cons.IH [OF this] have
    "promise (handle F e s) = Rejected msg \<or>
     (VideoError \<in> set es \<and> msg = ''Video loading failed'') \<or> PlayRejected msg \<in> set es" .
  then show ?case
    using rejected_by_event [of F e s msg] by auto
qed

lemma rejection_causes:
  assumes "promise (extract_run F evs (extractFramesFromVideo url F ctx)) = Rejected msg"
  shows "(\<not> ctx \<and> msg = ''Could not get canvas context'') \<or>
         (VideoError \<in> set evs \<and> msg = ''Video loading failed'') \<or>
         PlayRejected msg \<in> set evs"
proof -
  have "promise (extractFramesFromVideo url F ctx) = Rejected msg \<Longrightarrow>
          \<not> ctx \<and> msg = ''Could not get canvas context''"
    by (simp add: extractFramesFromVideo_def reject_def Let_def split: if_splits)
  then show ?thesis
    using rejected_by_run [OF assms] by blast
qed

lemma demo_play_run:
  "extract_run FRAME_COUNT (LoadedMetadata PosInfinity 100 # demo_play_events)
     (extractFramesFromVideo ''blob:clip'' FRAME_COUNT True)
   = \<lparr>promise = Resolved [''data:a'', ''data:c''], frames_ex = [''data:a'', ''data:c''],
      src = [], handlers_set = True, metadata_loaded = True, duration = PosInfinity,
      onseeked_set = False, frameInterval = NaN, framesProcessed = 0, seeks = [],
      seek_pending = False, onplay_set = True, play_called = True, framesCaptured = 2,
      startTime = 100, capture_intervals = 0\<rparr>"
  by (simp add: demo_play_events_def FRAME_COUNT_def extractFramesFromVideo_def
      on_loadedmetadata_def captureFramesOverTime_def invalid_duration_def capture_interval_tick_def totalDuration_def
      resolve_def cleanup_def Let_def)

lemma demo_play_open:
  "capture_intervals
     (extract_run FRAME_COUNT [LoadedMetadata PosInfinity 100, PlayStarted]
        (extractFramesFromVideo ''blob:clip'' FRAME_COUNT True)) = 1 \<and>
   frames_ex
     (extract_run FRAME_COUNT [LoadedMetadata PosInfinity 100, PlayStarted]
        (extractFramesFromVideo ''blob:clip'' FRAME_COUNT True)) = []"
  by (simp add: FRAME_COUNT_def extractFramesFromVideo_def on_loadedmetadata_def captureFramesOverTime_def
      invalid_duration_def Let_def)

lemma demo_video_error:
  "promise (extract_run FRAME_COUNT [VideoError]
     (extractFramesFromVideo ''blob:clip'' FRAME_COUNT True)) = Rejected ''Video loading failed''"
  by (simp add: extractFramesFromVideo_def reject_def Let_def)

subsection \<open>The claim about extraction\<close>

text \<open>
  Claim C6, as amended. With a 2D context, a positive frame count \<open>F\<close> and a duration \<open>d\<close>
  that is finite and positive, the extraction assigns to \<^verbatim>\<open>currentTime\<close> the positions
  \<open>i * (d / F)\<close> for \<open>i\<close> from 0 below \<open>F\<close>, in order, attempts one capture after each
  seek, and resolves with the frames drawn, at most \<open>F\<close>, without playing the video. A
  duration is unusable exactly when it is not a finite positive number; then the
  extraction never seeks, calls \<^verbatim>\<open>play\<close>, collects at most \<open>F\<close> frames and resolves with
  at most \<open>F\<close> frames; a tick of a running capture interval takes the frame it draws while
  fewer than \<open>F\<close> are held and less than 2000 ms have passed since the start, and otherwise
  takes nothing and resolves the promise with the frames held. The promise is rejected only
  when the canvas gives no 2D context, when the video element reports an error, or when
  \<^verbatim>\<open>play\<close> is rejected, with the corresponding message.
\<close>

theorem fallback_extraction:
  "(0 < d \<and> 0 < F \<and> length rs = F \<longrightarrow>
      (let s = extract_run F (LoadedMetadata (Finite d) t # map Seeked rs)
                 (extractFramesFromVideo url F True)
       in seeks s = map (\<lambda>i. of_nat i * (d / of_nat F)) [0..<F] \<and>
          promise s = Resolved (drawn rs) \<and> length (drawn rs) \<le> F \<and> \<not> play_called s)) \<and>
   (invalid_duration dur \<longleftrightarrow> \<not> (\<exists>x. dur = Finite x \<and> 0 < x)) \<and>
   (invalid_duration dur \<longrightarrow>
      (let s = extract_run F (LoadedMetadata dur t # evs) (extractFramesFromVideo url F True)
       in seeks s = [] \<and> play_called s \<and> length (frames_ex s) \<le> F \<and>
          (\<forall>fs. promise s = Resolved fs \<longrightarrow> length fs \<le> F) \<and>
          (\<forall>t' u. 0 < capture_intervals s \<and> length (frames_ex s) < F \<and>
                  t' - t < totalDuration \<longrightarrow>
             frames_ex (handle F (IntervalTick t' (Some u)) s) = frames_ex s @ [u] \<and>
             frames_ex (handle F (IntervalTick t' None) s) = frames_ex s \<and>
             promise (handle F (IntervalTick t' (Some u)) s) = promise s) \<and>
          (\<forall>t' r. 0 < capture_intervals s \<and>
                  (F \<le> length (frames_ex s) \<or> totalDuration \<le> t' - t) \<longrightarrow>
             frames_ex (handle F (IntervalTick t' r) s) = frames_ex s \<and>
             promise (handle F (IntervalTick t' r) s)
               = (if promise s = Pending then Resolved (frames_ex s) else promise s)))) \<and>
   (promise (extract_run F evs (extractFramesFromVideo url F ctx)) = Rejected msg \<longrightarrow>
      (\<not> ctx \<and> msg = ''Could not get canvas context'') \<or>
      (VideoError \<in> set evs \<and> msg = ''Video loading failed'') \<or>
      PlayRejected msg \<in> set evs)"
proof (intro conjI impI)
  assume a: "0 < d \<and> 0 < F \<and> length rs = F"
  then have "extract_run F (LoadedMetadata (Finite d) t # map Seeked rs)
               (extractFramesFromVideo url F True) = seek_state url F d F rs"
    using seek_extraction by blast
  moreover have "length (drawn rs) \<le> F"
    using a length_drawn [of rs] by simp
  ultimately show "let s = extract_run F (LoadedMetadata (Finite d) t # map Seeked rs)
                 (extractFramesFromVideo url F True)
       in seeks s = map (\<lambda>i. of_nat i * (d / of_nat F)) [0..<F] \<and>
          promise s = Resolved (drawn rs) \<and> length (drawn rs) \<le> F \<and> \<not> play_called s"
    by (simp add: seek_state_def seek_positions_def Let_def del: extract_run.simps)
next
  show "invalid_duration dur \<longleftrightarrow> \<not> (\<exists>x. dur = Finite x \<and> 0 < x)"
    by (rule valid_duration)
next
  assume "invalid_duration dur"
  then have "play_inv F t (handle F (LoadedMetadata dur t) (extractFramesFromVideo url F True))"
    by (rule play_start)
  then have "play_inv F t
               (extract_run F evs (handle F (LoadedMetadata dur t) (extractFramesFromVideo url F True)))"
    by (rule play_inv_run)
  then have inv: "play_inv F t
      (extract_run F (LoadedMetadata dur t # evs) (extractFramesFromVideo url F True))"
    by simp
  define s where
    "s = extract_run F (LoadedMetadata dur t # evs) (extractFramesFromVideo url F True)"
  have i: "play_inv F t s"
    using inv by (simp only: s_def)
  have "seeks s = []" "play_called s" "length (frames_ex s) \<le> F"
    using i by (simp_all add: play_inv_def)
  moreover have "\<forall>fs. promise s = Resolved fs \<longrightarrow> length fs \<le> F"
    using i by (auto simp: play_inv_def)
  moreover have "\<forall>t' u. 0 < capture_intervals s \<and> length (frames_ex s) < F \<and>
                  t' - t < totalDuration \<longrightarrow>
             frames_ex (handle F (IntervalTick t' (Some u)) s) = frames_ex s @ [u] \<and>
             frames_ex (handle F (IntervalTick t' None) s) = frames_ex s \<and>
             promise (handle F (IntervalTick t' (Some u)) s) = promise s"
    using window_open [OF i] by blast
  moreover have "\<forall>t' r. 0 < capture_intervals s \<and>
                  (F \<le> length (frames_ex s) \<or> totalDuration \<le> t' - t) \<longrightarrow>
             frames_ex (handle F (IntervalTick t' r) s) = frames_ex s \<and>
             promise (handle F (IntervalTick t' r) s)
               = (if promise s = Pending then Resolved (frames_ex s) else promise s)"
    using window_closed [OF i] by blast
  ultimately show "let s = extract_run F (LoadedMetadata dur t # evs) (extractFramesFromVideo url F True)
       in seeks s = [] \<and> play_called s \<and> length (frames_ex s) \<le> F \<and>
          (\<forall>fs. promise s = Resolved fs \<longrightarrow> length fs \<le> F) \<and>
          (\<forall>t' u. 0 < capture_intervals s \<and> length (frames_ex s) < F \<and>
                  t' - t < totalDuration \<longrightarrow>
             frames_ex (handle F (IntervalTick t' (Some u)) s) = frames_ex s @ [u] \<and>
             frames_ex (handle F (IntervalTick t' None) s) = frames_ex s \<and>
             promise (handle F (IntervalTick t' (Some u)) s) = promise s) \<and>
          (\<forall>t' r. 0 < capture_intervals s \<and>
                  (F \<le> length (frames_ex s) \<or> totalDuration \<le> t' - t) \<longrightarrow>
             frames_ex (handle F (IntervalTick t' r) s) = frames_ex s \<and>
             promise (handle F (IntervalTick t' r) s)
               = (if promise s = Pending then Resolved (frames_ex s) else promise s))"
    unfolding Let_def s_def [symmetric] by blast
next
  assume "promise (extract_run F evs (extractFramesFromVideo url F ctx)) = Rejected msg"
  then show "(\<not> ctx \<and> msg = ''Could not get canvas context'') \<or>
      (VideoError \<in> set evs \<and> msg = ''Video loading failed'') \<or>
      PlayRejected msg \<in> set evs"
    by (rule rejection_causes)
qed

theorem fallback_extraction_witness:
  "seeks (extract_run FRAME_COUNT
       (LoadedMetadata (Finite 2) 100 #
        map Seeked [Some ''data:a'', None, Some ''data:c'', Some ''data:d''])
       (extractFramesFromVideo ''blob:clip'' FRAME_COUNT True)) = [0, 1 / 2, 1, 3 / 2] \<and>
   promise (extract_run FRAME_COUNT
       (LoadedMetadata (Finite 2) 100 #
        map Seeked [Some ''data:a'', None, Some ''data:c'', Some ''data:d''])
       (extractFramesFromVideo ''blob:clip'' FRAME_COUNT True))
     = Resolved [''data:a'', ''data:c'', ''data:d''] \<and>
   invalid_duration PosInfinity \<and>
   promise (extract_run FRAME_COUNT (LoadedMetadata PosInfinity 100 # demo_play_events)
     (extractFramesFromVideo ''blob:clip'' FRAME_COUNT True)) = Resolved [''data:a'', ''data:c''] \<and>
   length [''data:a'', ''data:c''] \<le> FRAME_COUNT \<and>
   frames_ex (handle FRAME_COUNT (IntervalTick 2100 (Some ''data:z''))
     (extract_run FRAME_COUNT [LoadedMetadata PosInfinity 100, PlayStarted]
        (extractFramesFromVideo ''blob:clip'' FRAME_COUNT True))) = [] \<and>
   frames_ex (handle FRAME_COUNT (IntervalTick 600 (Some ''data:a''))
     (extract_run FRAME_COUNT [LoadedMetadata PosInfinity 100, PlayStarted]
        (extractFramesFromVideo ''blob:clip'' FRAME_COUNT True))) = [''data:a''] \<and>
   VideoError \<in> set [VideoError]"
proof -
  have h1: "0 < (2::rat) \<and> 0 < FRAME_COUNT \<and>
            length [Some ''data:a'', None, Some ''data:c'', Some ''data:d''] = FRAME_COUNT"
    by (simp add: FRAME_COUNT_def)
  have h2: "invalid_duration PosInfinity"
    by (simp add: invalid_duration_def)
  have h3: "(0::nat) < 1 \<and> totalDuration \<le> 2100 - 100"
    by (simp add: totalDuration_def)
  have h4: "(0::nat) < FRAME_COUNT \<and> 600 - 100 < totalDuration"
    by (simp add: totalDuration_def FRAME_COUNT_def)
  have up: "[0..<FRAME_COUNT] = [0, 1, 2, 3]"
    by (simp add: FRAME_COUNT_def upt_rec)
  note seek = fallback_extraction
    [of 2 FRAME_COUNT "[Some ''data:a'', None, Some ''data:c'', Some ''data:d'']" 100
        "''blob:clip''" PosInfinity demo_play_events True "''Video loading failed''"]
  note play = fallback_extraction
    [of 2 FRAME_COUNT "[Some ''data:a'', None, Some ''data:c'', Some ''data:d'']" 100
        "''blob:clip''" PosInfinity "[PlayStarted]" True "''Video loading failed''"]
  note err = fallback_extraction
    [of 2 FRAME_COUNT "[Some ''data:a'', None, Some ''data:c'', Some ''data:d'']" 100
        "''blob:clip''" PosInfinity "[VideoError]" True "''Video loading failed''"]
  from seek h1 have a: "seeks (extract_run FRAME_COUNT
       (LoadedMetadata (Finite 2) 100 #
        map Seeked [Some ''data:a'', None, Some ''data:c'', Some ''data:d''])
       (extractFramesFromVideo ''blob:clip'' FRAME_COUNT True))
       = map (\<lambda>i. of_nat i * (2 / of_nat FRAME_COUNT)) [0..<FRAME_COUNT] \<and>
     promise (extract_run FRAME_COUNT
       (LoadedMetadata (Finite 2) 100 #
        map Seeked [Some ''data:a'', None, Some ''data:c'', Some ''data:d''])
       (extractFramesFromVideo ''blob:clip'' FRAME_COUNT True))
       = Resolved (drawn [Some ''data:a'', None, Some ''data:c'', Some ''data:d''])"
    unfolding Let_def by blast
  from seek h2 have b: "\<forall>fs. promise (extract_run FRAME_COUNT
       (LoadedMetadata PosInfinity 100 # demo_play_events)
       (extractFramesFromVideo ''blob:clip'' FRAME_COUNT True)) = Resolved fs \<longrightarrow>
       length fs \<le> FRAME_COUNT"
    unfolding Let_def by blast
  from play h2 have c: "\<forall>t' r. 0 < capture_intervals (extract_run FRAME_COUNT
         (LoadedMetadata PosInfinity 100 # [PlayStarted])
         (extractFramesFromVideo ''blob:clip'' FRAME_COUNT True)) \<and>
        (FRAME_COUNT \<le> length (frames_ex (extract_run FRAME_COUNT
         (LoadedMetadata PosInfinity 100 # [PlayStarted])
         (extractFramesFromVideo ''blob:clip'' FRAME_COUNT True))) \<or>
         totalDuration \<le> t' - 100) \<longrightarrow>
        frames_ex (handle FRAME_COUNT (IntervalTick t' r) (extract_run FRAME_COUNT
         (LoadedMetadata PosInfinity 100 # [PlayStarted])
         (extractFramesFromVideo ''blob:clip'' FRAME_COUNT True)))
        = frames_ex (extract_run FRAME_COUNT
         (LoadedMetadata PosInfinity 100 # [PlayStarted])
         (extractFramesFromVideo ''blob:clip'' FRAME_COUNT True))"
    unfolding Let_def by blast
  from play h2 have o: "\<forall>t' u. 0 < capture_intervals (extract_run FRAME_COUNT
         (LoadedMetadata PosInfinity 100 # [PlayStarted])
         (extractFramesFromVideo ''blob:clip'' FRAME_COUNT True)) \<and>
        length (frames_ex (extract_run FRAME_COUNT
         (LoadedMetadata PosInfinity 100 # [PlayStarted])
         (extractFramesFromVideo ''blob:clip'' FRAME_COUNT True))) < FRAME_COUNT \<and>
        t' - 100 < totalDuration \<longrightarrow>
        frames_ex (handle FRAME_COUNT (IntervalTick t' (Some u)) (extract_run FRAME_COUNT
         (LoadedMetadata PosInfinity 100 # [PlayStarted])
         (extractFramesFromVideo ''blob:clip'' FRAME_COUNT True)))
        = frames_ex (extract_run FRAME_COUNT
         (LoadedMetadata PosInfinity 100 # [PlayStarted])
         (extractFramesFromVideo ''blob:clip'' FRAME_COUNT True)) @ [u]"
    unfolding Let_def by blast
  from err demo_video_error have d: "VideoError \<in> set [VideoError]"
    by simp
  have "frames_ex (handle FRAME_COUNT (IntervalTick 2100 (Some ''data:z''))
     (extract_run FRAME_COUNT [LoadedMetadata PosInfinity 100, PlayStarted]
        (extractFramesFromVideo ''blob:clip'' FRAME_COUNT True))) = []"
    using c h3 demo_play_open by (simp del: handle.simps extract_run.simps)
  moreover have "frames_ex (handle FRAME_COUNT (IntervalTick 600 (Some ''data:a''))
     (extract_run FRAME_COUNT [LoadedMetadata PosInfinity 100, PlayStarted]
        (extractFramesFromVideo ''blob:clip'' FRAME_COUNT True))) = [''data:a'']"
    using o h4 demo_play_open by (simp del: handle.simps extract_run.simps)
  moreover have "length [''data:a'', ''data:c''] \<le> FRAME_COUNT"
    using b demo_play_run by simp
  moreover have "map (\<lambda>i. of_nat i * (2 / of_nat FRAME_COUNT)) [0..<FRAME_COUNT]
                   = [0, 1 / 2, 1, 3 / 2 :: rat]"
    unfolding up by (simp add: FRAME_COUNT_def)
  ultimately show ?thesis
    using a h2 d demo_play_run by simp
qed

text \<open>
  The claim as first stated lets the extraction reject only when the blob cannot be loaded
  or played. Without a 2D context the promise is rejected before the video element is set
  up: no event has occurred, neither an error nor a rejected \<^verbatim>\<open>play\<close>.
\<close>

theorem rejection_without_load_or_play_failure_counterexample:
  "promise (extract_run FRAME_COUNT [] (extractFramesFromVideo ''blob:clip'' FRAME_COUNT False))
     = Rejected ''Could not get canvas context'' \<and>
   VideoError \<notin> set [] \<and> PlayRejected ''Could not get canvas context'' \<notin> set []"
  by (simp add: extractFramesFromVideo_def reject_def Let_def)

end
